theory Spec2Isabelle
  imports Complex_Main
begin

section \<open>JavaScript values and exceptions\<close>

text \<open>
  The module \<^verbatim>\<open>office-online\<close> (file \<^verbatim>\<open>webapp-integrations-office-online.js\<close>) is
  a thin wrapper over browser primitives. Every exception the code can raise is a value
  here. Strings are lists of characters; the code only compares and appends strings, and
  the characters it searches for are ASCII.
\<close>

datatype error = TypeError | URIError | SyntaxError | ReferenceError

text \<open>
  The value \<^verbatim>\<open>JSON.parse\<close> returns. An object is the list of its own properties; a
  property read that finds nothing gives \<^verbatim>\<open>undefined\<close>, which is \<open>None\<close>.
\<close>

datatype json =
    JNull
  | JBool bool
  | JNum rat
  | JStr string
  | JArr "json list"
  | JObj "(string \<times> json) list"

section \<open>Constants of the module\<close>

definition APP_LOADING_STATUS_MESSAGE_ID :: string where
  "APP_LOADING_STATUS_MESSAGE_ID = ''App_LoadingStatus''"

definition POST_MESSAGE_READY_MESSAGE_ID :: string where
  "POST_MESSAGE_READY_MESSAGE_ID = ''Host_PostmessageReady''"

definition FILE_RENAME_MESSAGE_ID :: string where
  "FILE_RENAME_MESSAGE_ID = ''File_Rename''"

definition IFRAME_LOAD_TIME_EVENT :: string where
  "IFRAME_LOAD_TIME_EVENT = ''IFRAME_LOAD_TIME''"

definition EDITOR_LOAD_TIME_EVENT :: string where
  "EDITOR_LOAD_TIME_EVENT = ''EDITOR_LOAD_TIME''"

definition FRAME_HOLDER_CLASS :: string where
  "FRAME_HOLDER_CLASS = ''office-online-frame-holder''"

definition EDITOR_IFRAME_NAME :: string where
  "EDITOR_IFRAME_NAME = ''office-editor''"

definition EDITOR_IFRAME_CLASS :: string where
  "EDITOR_IFRAME_CLASS = ''office-editor-frame''"

definition OFFICE_ONLINE_CATEGORY_NAME :: string where
  "OFFICE_ONLINE_CATEGORY_NAME = ''office_online''"

definition DISABLE_SAME_ORIGIN_KEY :: string where
  "DISABLE_SAME_ORIGIN_KEY = ''disableAllowSameOrigin''"

section \<open>The built-in \<^verbatim>\<open>decodeURIComponent\<close>\<close>

text \<open>
  \<^verbatim>\<open>getParameterByName\<close> passes the matched value through \<^verbatim>\<open>decodeURIComponent\<close>,
  which raises \<^verbatim>\<open>URIError\<close> on a malformed escape. The functions below follow the
  abstract operation Decode of ECMAScript with an empty set of preserved characters:
  a percent sign is followed by two hexadecimal digits; an octet with leading one bits
  starts a UTF-8 sequence of two to four escaped octets, which must encode a code point;
  the code point is appended as UTF-16 code units. The result is a list of code units.
\<close>

definition hex_digit :: "char \<Rightarrow> nat option" where
  "hex_digit c =
     (let k = (of_char c :: nat) in
      if 48 \<le> k \<and> k \<le> 57 then Some (k - 48)
      else if 65 \<le> k \<and> k \<le> 70 then Some (k - 55)
      else if 97 \<le> k \<and> k \<le> 102 then Some (k - 87)
      else None)"

fun ParseHexOctet :: "string \<Rightarrow> nat option" where
  "ParseHexOctet (h1 # h2 # rest) =
     (case hex_digit h1 of
        None \<Rightarrow> None
      | Some a \<Rightarrow> (case hex_digit h2 of None \<Rightarrow> None | Some b \<Rightarrow> Some (16 * a + b)))"
| "ParseHexOctet rest = None"

definition leading_ones :: "nat \<Rightarrow> nat" where
  "leading_ones B =
     (if B < 128 then 0 else if B < 192 then 1 else if B < 224 then 2
      else if B < 240 then 3 else if B < 248 then 4 else 5)"

fun continuation_octets :: "nat \<Rightarrow> string \<Rightarrow> nat list option" where
  "continuation_octets 0 cs = Some []"
| "continuation_octets (Suc j) [] = None"
| "continuation_octets (Suc j) (p # hs) =
     (if p \<noteq> CHR ''%'' then None
      else (case ParseHexOctet hs of
              None \<Rightarrow> None
            | Some B \<Rightarrow>
                (case continuation_octets j (drop 2 hs) of
                   None \<Rightarrow> None
                 | Some Octets \<Rightarrow> Some (B # Octets))))"

definition is_continuation :: "nat \<Rightarrow> bool" where
  "is_continuation b = (128 \<le> b \<and> b < 192)"

definition utf8_code_point :: "nat list \<Rightarrow> nat option" where
  "utf8_code_point Octets =
     (case Octets of
        [b0, b1] \<Rightarrow>
          (let V = (b0 mod 32) * 64 + b1 mod 64 in
           if is_continuation b1 \<and> 128 \<le> V then Some V else None)
      | [b0, b1, b2] \<Rightarrow>
          (let V = ((b0 mod 16) * 64 + b1 mod 64) * 64 + b2 mod 64 in
           if is_continuation b1 \<and> is_continuation b2 \<and> 2048 \<le> V
              \<and> \<not> (55296 \<le> V \<and> V \<le> 57343)
           then Some V else None)
      | [b0, b1, b2, b3] \<Rightarrow>
          (let V = (((b0 mod 8) * 64 + b1 mod 64) * 64 + b2 mod 64) * 64 + b3 mod 64 in
           if is_continuation b1 \<and> is_continuation b2 \<and> is_continuation b3
              \<and> 65536 \<le> V \<and> V \<le> 1114111
           then Some V else None)
      | _ \<Rightarrow> None)"

definition UTF16EncodeCodePoint :: "nat \<Rightarrow> nat list" where
  "UTF16EncodeCodePoint V =
     (if V < 65536 then [V]
      else [55296 + (V - 65536) div 1024, 56320 + (V - 65536) mod 1024])"

fun decodeURIComponent :: "string \<Rightarrow> error + nat list" where
  "decodeURIComponent [] = Inr []"
| "decodeURIComponent (C # cs) =
     (if C \<noteq> CHR ''%'' then
        (case decodeURIComponent cs of Inl e \<Rightarrow> Inl e | Inr R \<Rightarrow> Inr (of_char C # R))
      else
        (case ParseHexOctet cs of
           None \<Rightarrow> Inl URIError
         | Some B \<Rightarrow>
             (if leading_ones B = 0 then
                (case decodeURIComponent (drop 2 cs) of
                   Inl e \<Rightarrow> Inl e
                 | Inr R \<Rightarrow> Inr (B # R))
              else if leading_ones B = 1 \<or> 4 < leading_ones B then Inl URIError
              else
                (case continuation_octets (leading_ones B - 1) (drop 2 cs) of
                   None \<Rightarrow> Inl URIError
                 | Some Octets \<Rightarrow>
                     (case utf8_code_point (B # Octets) of
                        None \<Rightarrow> Inl URIError
                      | Some V \<Rightarrow>
                          (case decodeURIComponent (drop (2 + 3 * (leading_ones B - 1)) cs) of
                             Inl e \<Rightarrow> Inl e
                           | Inr R \<Rightarrow> Inr (UTF16EncodeCodePoint V @ R)))))))"

section \<open>Reading a parameter of the page URL\<close>

text \<open>
  \<^verbatim>\<open>getParameterByName(name, url)\<close> builds the regular expression
  \<^verbatim>\<open>[?&]name(=([^&#]*)|&|#|$)\<close> and runs \<^verbatim>\<open>exec\<close> on the URL. The only caller passes
  \<^verbatim>\<open>DISABLE_SAME_ORIGIN_KEY\<close>, which has no character that is special in a regular
  expression, so the name is matched letter by letter. \<open>regex_exec\<close> is that search:
  the leftmost position where \<^verbatim>\<open>?\<close> or \<^verbatim>\<open>&\<close> is followed by the name and then by
  \<^verbatim>\<open>=\<close>, \<^verbatim>\<open>&\<close>, \<^verbatim>\<open>#\<close> or the end of the URL. \<open>None\<close> is the \<^verbatim>\<open>null\<close> of a failed
  search; \<open>Some None\<close> a match whose second group is \<^verbatim>\<open>undefined\<close>; \<open>Some (Some v)\<close> a
  match whose second group is the longest run \<open>v\<close> of characters other than \<^verbatim>\<open>&\<close> and
  \<^verbatim>\<open>#\<close> after the equals sign.
\<close>

fun regex_exec :: "string \<Rightarrow> string \<Rightarrow> string option option" where
  "regex_exec pname [] = None"
| "regex_exec pname (c # cs) =
     (if (c = CHR ''?'' \<or> c = CHR ''&'') \<and> take (length pname) cs = pname then
        (case drop (length pname) cs of
           [] \<Rightarrow> Some None
         | d # ds \<Rightarrow>
             if d = CHR ''='' then
               Some (Some (takeWhile (\<lambda>x. x \<noteq> CHR ''&'' \<and> x \<noteq> CHR ''#'') ds))
             else if d = CHR ''&'' \<or> d = CHR ''#'' then Some None
             else regex_exec pname cs)
      else regex_exec pname cs)"

text \<open>
  The result of \<^verbatim>\<open>getParameterByName\<close> is \<^verbatim>\<open>null\<close> (\<open>None\<close>) or a string of code units;
  the call raises what \<^verbatim>\<open>decodeURIComponent\<close> raises.
\<close>

definition getParameterByName :: "string \<Rightarrow> string \<Rightarrow> error + nat list option" where
  "getParameterByName pname url =
     (case regex_exec pname url of
        None \<Rightarrow> Inr None
      | Some None \<Rightarrow> Inr (Some [])
      | Some (Some v) \<Rightarrow>
          if v = [] then Inr (Some [])
          else
            (case decodeURIComponent (map (\<lambda>c. if c = CHR ''+'' then CHR '' '' else c) v) of
               Inl e \<Rightarrow> Inl e
             | Inr s \<Rightarrow> Inr (Some s)))"

text \<open>The test \<^verbatim>\<open>if (disableAllowSameOrigin)\<close>: \<^verbatim>\<open>null\<close> and the empty string are falsy.\<close>

fun truthy_param :: "nat list option \<Rightarrow> bool" where
  "truthy_param None = False"
| "truthy_param (Some s) = (s \<noteq> [])"

section \<open>The environment of the module\<close>

text \<open>
  What the module reads and never writes: the configuration behind
  \<^verbatim>\<open>context.getConfig\<close>, the global \<^verbatim>\<open>invocationUrl\<close> (\<open>None\<close> when the page does not
  define it, so that reading it raises \<^verbatim>\<open>ReferenceError\<close>), \<^verbatim>\<open>window.location.href\<close>, and
  the built-ins the code calls. \<open>performance_now k\<close> is the value of the \<open>k\<close>-th call of
  \<^verbatim>\<open>performance.now()\<close> on this page and \<open>Date_getTime k\<close> that of the \<open>k\<close>-th
  \<^verbatim>\<open>(new Date()).getTime()\<close>; a reading of \<^verbatim>\<open>performance.now()\<close> is a double, given
  here as the real number it stands for. \<open>JSON_parse\<close> gives \<open>None\<close> where \<^verbatim>\<open>JSON.parse\<close> raises \<^verbatim>\<open>SyntaxError\<close>;
  it, \<open>JSON_stringify\<close> and \<open>Number_toString\<close> stay parameters, so that what is proved
  holds whatever these built-ins compute.
  \<open>dollar_t\<close> is the localisation function \<^verbatim>\<open>$t\<close>. The configured \<open>origin\<close> is taken
  to be a target origin that \<^verbatim>\<open>postMessage\<close> accepts.
\<close>

record host =
  serviceId :: string
  officeOnlineAppType :: string
  fileExtension :: string
  titleWithNoFilename :: string
  origin :: string
  invocationUrl :: "string option"
  location_href :: string
  performance_now :: "nat \<Rightarrow> real"
  Date_getTime :: "nat \<Rightarrow> int"
  JSON_parse :: "string \<Rightarrow> json option"
  JSON_stringify :: "json \<Rightarrow> string"
  Number_toString :: "rat \<Rightarrow> string"
  dollar_t :: "string \<Rightarrow> string \<Rightarrow> string \<Rightarrow> string \<Rightarrow> string"

section \<open>The frame element\<close>

record element =
  tagName :: string
  name :: string
  className :: string
  attributes :: "string \<rightharpoonup> string"

definition createElement :: "string \<Rightarrow> element" where
  "createElement tag = \<lparr>tagName = tag, name = [], className = [], attributes = Map.empty\<rparr>"

definition setAttribute :: "string \<Rightarrow> string \<Rightarrow> element \<Rightarrow> element" where
  "setAttribute k v el = el\<lparr>attributes := (attributes el)(k \<mapsto> v)\<rparr>"

definition getOfficeEditorFrameElement :: "host \<Rightarrow> error + element" where
  "getOfficeEditorFrameElement h =
     (let officeEditorFrame =
            setAttribute ''allow'' ''microphone''
              (setAttribute ''allowfullscreen'' ''true''
                 ((createElement ''iframe'')
                    \<lparr>name := EDITOR_IFRAME_NAME, className := EDITOR_IFRAME_CLASS\<rparr>))
      in case invocationUrl h of
           None \<Rightarrow> Inl ReferenceError
         | Some src \<Rightarrow>
             (case getParameterByName DISABLE_SAME_ORIGIN_KEY (location_href h) of
                Inl e \<Rightarrow> Inl e
              | Inr disableAllowSameOrigin \<Rightarrow>
                  if truthy_param disableAllowSameOrigin then
                    Inr (setAttribute ''sandbox''
                          ''allow-scripts allow-forms allow-popups allow-top-navigation allow-popups-to-escape-sandbox allow-downloads''
                          (setAttribute ''src'' src officeEditorFrame))
                  else
                    Inr (setAttribute ''sandbox''
                          ''allow-scripts allow-same-origin allow-forms allow-popups allow-top-navigation allow-popups-to-escape-sandbox allow-downloads''
                          (setAttribute ''src'' src officeEditorFrame))))"

section \<open>The state the module reads and writes\<close>

text \<open>
  One telemetry call: the category, the type and the parameter object as it is at the
  moment of the call. (\<^verbatim>\<open>logLoadTime\<close> passes the same object to both calls and changes
  its \<^verbatim>\<open>event_name\<close> in between; an entry records what the logger is handed when it is
  called.)
\<close>

record perf_params =
  event_name :: string
  load_time :: real
  service_id :: string
  office_online_app_type :: string

record log_entry =
  category :: string
  event_type :: string
  sent_params :: perf_params

datatype handler = ReceiveEventFromOfficeOnline

text \<open>
  \<open>startTs\<close> is the module variable of that name, \<open>None\<close> while it is \<^verbatim>\<open>undefined\<close>.
  \<^verbatim>\<open>init\<close> assigns \<^verbatim>\<open>domService\<close>, \<^verbatim>\<open>logger\<close>, \<^verbatim>\<open>win\<close> and \<^verbatim>\<open>performance\<close> in the same
  straight line just before \<^verbatim>\<open>startTs\<close>, so \<open>None\<close> also says that these four are still
  \<^verbatim>\<open>undefined\<close> and that calling a method on them raises \<^verbatim>\<open>TypeError\<close>.
  \<open>perf_calls\<close> and \<open>date_calls\<close> count the clock readings made so far.
  \<open>frame_holder\<close> is the list of children of the element of class
  \<^verbatim>\<open>office-online-frame-holder\<close> (\<open>None\<close> when the page has no such element),
  \<open>office_form\<close> the number of times the element of class \<^verbatim>\<open>office-form\<close> was submitted
  (\<open>None\<close> when there is none), \<open>listeners\<close> the handlers subscribed on the window with
  their event type, \<open>sent_logs\<close> the calls of \<^verbatim>\<open>logger.sendLog\<close>, \<open>posted\<close> the messages
  posted to the frame's content window with their target origin, and \<open>parent_title\<close> is
  \<^verbatim>\<open>window.parent.document.title\<close>.
\<close>

record world =
  startTs :: "real option"
  perf_calls :: nat
  date_calls :: nat
  frame_holder :: "element list option"
  office_form :: "nat option"
  listeners :: "(string \<times> handler) list"
  sent_logs :: "log_entry list"
  posted :: "(string \<times> string) list"
  parent_title :: string

text \<open>
  An operation either returns the new state (\<open>Inr\<close>) or throws (\<open>Inl\<close>), and then the
  state it had reached when it threw stays behind: JavaScript undoes nothing.
\<close>

type_synonym outcome = "(error \<times> world) + world"

fun world_after :: "outcome \<Rightarrow> world" where
  "world_after (Inl (e, w)) = w"
| "world_after (Inr w) = w"

section \<open>Services of the host application\<close>

text \<open>
  Modelled from the spec: the telemetry sink \<^verbatim>\<open>logger.sendLog\<close> is an external
  collaborator (``fire-and-forget; no acknowledgement, no retry, no buffering''); a call
  records one entry and never fails.
\<close>

definition sendLog :: "string \<Rightarrow> string \<Rightarrow> perf_params \<Rightarrow> world \<Rightarrow> world" where
  "sendLog cat ty ps w =
     w\<lparr>sent_logs := sent_logs w @ [\<lparr>category = cat, event_type = ty, sent_params = ps\<rparr>]\<rparr>"

text \<open>
  Modelled from the spec: \<^verbatim>\<open>domService.on\<close> and \<^verbatim>\<open>domService.off\<close> are the host's
  event-subscription service (``subscribe to the global message event'', ``unsubscribes
  the message listener''). \<open>dom_on\<close> adds a subscription; \<open>dom_off\<close> removes every
  subscription of that handler for that event type.
\<close>

definition dom_on :: "string \<Rightarrow> handler \<Rightarrow> world \<Rightarrow> world" where
  "dom_on ty fn w = w\<lparr>listeners := listeners w @ [(ty, fn)]\<rparr>"

definition dom_off :: "string \<Rightarrow> handler \<Rightarrow> world \<Rightarrow> world" where
  "dom_off ty fn w = w\<lparr>listeners := filter (\<lambda>l. l \<noteq> (ty, fn)) (listeners w)\<rparr>"

text \<open>
  \<^verbatim>\<open>domService.query('.office-editor-frame')\<close>: the first element of that class. The
  document of the model holds the children of the frame holder.
\<close>

definition query_editor_frame :: "world \<Rightarrow> element option" where
  "query_editor_frame w =
     (case frame_holder w of
        None \<Rightarrow> None
      | Some children \<Rightarrow> find (\<lambda>el. className el = EDITOR_IFRAME_CLASS) children)"

section \<open>Subtraction of doubles\<close>

text \<open>
  \<^verbatim>\<open>performance.now() - startTs\<close> is a subtraction of IEEE 754 double-precision numbers:
  the exact difference is rounded to the nearest double, a tie going to the even
  significand. For a real \<open>x\<close> other than 0 the doubles around \<open>x\<close> are the multiples of
  \<open>2 powi ulp_exponent x\<close>: 53 significant bits, and no exponent below that of the
  subnormal numbers. Two readings of the page clock are finite doubles that are not
  negative, so their rounded difference is a finite double as well; the overflow to
  \<^verbatim>\<open>Infinity\<close> does not occur and is not modelled.
\<close>

definition round_half_even :: "real \<Rightarrow> int" where
  "round_half_even z =
     (if z - of_int \<lfloor>z\<rfloor> < 1 / 2 then \<lfloor>z\<rfloor>
      else if 1 / 2 < z - of_int \<lfloor>z\<rfloor> then \<lfloor>z\<rfloor> + 1
      else if even \<lfloor>z\<rfloor> then \<lfloor>z\<rfloor> else \<lfloor>z\<rfloor> + 1)"

definition ulp_exponent :: "real \<Rightarrow> int" where
  "ulp_exponent x = max (\<lfloor>log 2 \<bar>x\<bar>\<rfloor> - 52) (- 1074)"

definition round_double :: "real \<Rightarrow> real" where
  "round_double x =
     (if x = 0 then 0
      else of_int (round_half_even (x / 2 powi ulp_exponent x)) * 2 powi ulp_exponent x)"

definition double_minus :: "real \<Rightarrow> real \<Rightarrow> real" where
  "double_minus a b = round_double (a - b)"

section \<open>Private functions and public methods\<close>

definition logLoadTime :: "host \<Rightarrow> string \<Rightarrow> world \<Rightarrow> outcome" where
  "logLoadTime h eventName w =
     (case startTs w of
        None \<Rightarrow> Inl (TypeError, w)
      | Some start \<Rightarrow>
          (let loadTime = double_minus (performance_now h (perf_calls w)) start;
               w1 = w\<lparr>perf_calls := Suc (perf_calls w)\<rparr>;
               eventType = ''perf'';
               params = \<lparr>event_name = eventName, load_time = loadTime,
                         service_id = serviceId h,
                         office_online_app_type = officeOnlineAppType h\<rparr>;
               w2 = sendLog OFFICE_ONLINE_CATEGORY_NAME eventType params w1
           in if loadTime \<ge> 10000 then
                Inr (sendLog OFFICE_ONLINE_CATEGORY_NAME eventType
                       (params\<lparr>event_name := event_name params @ ''_slow''\<rparr>) w2)
              else Inr w2))"

definition drawIframe :: "host \<Rightarrow> world \<Rightarrow> outcome" where
  "drawIframe h w =
     (case startTs w of
        None \<Rightarrow> Inl (TypeError, w)
      | Some start \<Rightarrow>
          (let officeOnlineFrameHolder = frame_holder w in
           case getOfficeEditorFrameElement h of
             Inl e \<Rightarrow> Inl (e, w)
           | Inr officeEditorFrame \<Rightarrow>
               (case officeOnlineFrameHolder of
                  None \<Rightarrow> Inl (TypeError, w)
                | Some children \<Rightarrow>
                    logLoadTime h IFRAME_LOAD_TIME_EVENT
                      (w\<lparr>frame_holder := Some (children @ [officeEditorFrame])\<rparr>))))"

definition postTokenToIframe :: "world \<Rightarrow> outcome" where
  "postTokenToIframe w =
     (case startTs w of
        None \<Rightarrow> Inl (TypeError, w)
      | Some start \<Rightarrow>
          (case office_form w of
             None \<Rightarrow> Inl (TypeError, w)
           | Some submits \<Rightarrow> Inr (w\<lparr>office_form := Some (Suc submits)\<rparr>)))"

definition subscribeToEventsFromOfficeOnline :: "world \<Rightarrow> outcome" where
  "subscribeToEventsFromOfficeOnline w =
     (case startTs w of
        None \<Rightarrow> Inl (TypeError, w)
      | Some start \<Rightarrow> Inr (dom_on ''message'' ReceiveEventFromOfficeOnline w))"

definition init :: "host \<Rightarrow> world \<Rightarrow> outcome" where
  "init h w =
     (let w0 = w\<lparr>startTs := Some (performance_now h (perf_calls w)),
                 perf_calls := Suc (perf_calls w)\<rparr>
      in case drawIframe h w0 of
           Inl x \<Rightarrow> Inl x
         | Inr w1 \<Rightarrow>
             (case postTokenToIframe w1 of
                Inl x \<Rightarrow> Inl x
              | Inr w2 \<Rightarrow> subscribeToEventsFromOfficeOnline w2))"

definition destroy :: "world \<Rightarrow> outcome" where
  "destroy w =
     (case startTs w of
        None \<Rightarrow> Inl (TypeError, w)
      | Some start \<Rightarrow> Inr (dom_off ''message'' ReceiveEventFromOfficeOnline w))"

definition getCurrentTimestamp :: "host \<Rightarrow> world \<Rightarrow> int \<times> world" where
  "getCurrentTimestamp h w = (Date_getTime h (date_calls w), w\<lparr>date_calls := Suc (date_calls w)\<rparr>)"

definition publishMessage :: "host \<Rightarrow> json \<Rightarrow> world \<Rightarrow> outcome" where
  "publishMessage h message w =
     (let message' = JSON_stringify h message in
      case startTs w of
        None \<Rightarrow> Inl (TypeError, w)
      | Some start \<Rightarrow>
          (case query_editor_frame w of
             None \<Rightarrow> Inl (TypeError, w)
           | Some officeFrame \<Rightarrow> Inr (w\<lparr>posted := posted w @ [(message', origin h)]\<rparr>)))"

definition publishReadyMessage :: "host \<Rightarrow> world \<Rightarrow> outcome" where
  "publishReadyMessage h w =
     (case getCurrentTimestamp h w of
        (sendTime, w1) \<Rightarrow>
          publishMessage h
            (JObj [(''MessageId'', JStr POST_MESSAGE_READY_MESSAGE_ID),
                   (''SendTime'', JNum (of_int sendTime)),
                   (''Values'', JObj [])])
            w1)"

section \<open>The message handler\<close>

text \<open>
  The event \<^verbatim>\<open>receiveEventFromOfficeOnline\<close> is handed: of the event only
  \<^verbatim>\<open>event.originalEvent.data\<close> is read. \<open>None\<close> is a payload that is \<^verbatim>\<open>undefined\<close> or
  \<^verbatim>\<open>null\<close>; otherwise the payload is a string, as Office Online posts it and as the
  inbound wire format has it. Payloads of other types are not modelled.
\<close>

record event =
  originalEvent_data :: "string option"

text \<open>The truth value of a parsed value in \<^verbatim>\<open>data && ...\<close>.\<close>

fun truthy :: "json \<Rightarrow> bool" where
  "truthy JNull = False"
| "truthy (JBool b) = b"
| "truthy (JNum r) = (r \<noteq> 0)"
| "truthy (JStr s) = (s \<noteq> [])"
| "truthy (JArr xs) = True"
| "truthy (JObj kvs) = True"

text \<open>
  Reading one of the properties \<^verbatim>\<open>MessageId\<close>, \<^verbatim>\<open>Values\<close> and \<^verbatim>\<open>NewName\<close> of a value
  other than \<^verbatim>\<open>null\<close>: an object gives its own property of that name, and a boolean,
  a number, a string or an array has no property of these names, so the read gives
  \<^verbatim>\<open>undefined\<close>.
\<close>

fun get_property :: "json \<Rightarrow> string \<Rightarrow> json option" where
  "get_property (JObj kvs) k = map_of kvs k"
| "get_property v k = None"

text \<open>
  The conversion to a string that \<^verbatim>\<open>msgValue.NewName + '.'\<close> applies to its left
  operand. An array is joined with commas, \<^verbatim>\<open>null\<close> elements giving the empty string.
  An object converts through \<^verbatim>\<open>Object.prototype.toString\<close> to \<^verbatim>\<open>[object Object]\<close>, unless
  it has an own property \<^verbatim>\<open>toString\<close>: a parsed value is never callable, no method is
  left that gives a primitive, and the conversion throws \<^verbatim>\<open>TypeError\<close>. (An own property
  \<^verbatim>\<open>valueOf\<close> is skipped for the same reason and changes nothing.) \<open>first_error\<close> is
  the conversion of the elements of an array from left to right, ending at the first
  that throws.
\<close>

fun join_comma :: "string list \<Rightarrow> string" where
  "join_comma [] = []"
| "join_comma [x] = x"
| "join_comma (x # y # ys) = x @ '','' @ join_comma (y # ys)"

fun first_error :: "(error + string) list \<Rightarrow> error + string list" where
  "first_error [] = Inr []"
| "first_error (Inl e # rs) = Inl e"
| "first_error (Inr s # rs) =
     (case first_error rs of Inl e \<Rightarrow> Inl e | Inr ss \<Rightarrow> Inr (s # ss))"

fun ToString :: "(rat \<Rightarrow> string) \<Rightarrow> json \<Rightarrow> error + string" where
  "ToString num JNull = Inr ''null''"
| "ToString num (JBool b) = Inr (if b then ''true'' else ''false'')"
| "ToString num (JNum r) = Inr (num r)"
| "ToString num (JStr s) = Inr s"
| "ToString num (JArr xs) =
     (case first_error (map (\<lambda>x. if x = JNull then Inr [] else ToString num x) xs) of
        Inl e \<Rightarrow> Inl e
      | Inr ss \<Rightarrow> Inr (join_comma ss))"
| "ToString num (JObj kvs) =
     (if map_of kvs ''toString'' = None then Inr ''[object Object]'' else Inl TypeError)"

fun ToString_operand :: "(rat \<Rightarrow> string) \<Rightarrow> json option \<Rightarrow> error + string" where
  "ToString_operand num None = Inr ''undefined''"
| "ToString_operand num (Some v) = ToString num v"

definition receiveEventFromOfficeOnline :: "host \<Rightarrow> event \<Rightarrow> world \<Rightarrow> outcome" where
  "receiveEventFromOfficeOnline h ev w =
     (case originalEvent_data ev of
        None \<Rightarrow> Inr w
      | Some payload \<Rightarrow>
          if payload = [] then Inr w
          else
            (case JSON_parse h payload of
               None \<Rightarrow> Inl (SyntaxError, w)
             | Some data \<Rightarrow>
                 (case (if truthy data
                           \<and> get_property data ''MessageId'' = Some (JStr APP_LOADING_STATUS_MESSAGE_ID)
                        then (case logLoadTime h EDITOR_LOAD_TIME_EVENT w of
                                Inl x \<Rightarrow> Inl x
                              | Inr w1 \<Rightarrow> publishReadyMessage h w1)
                        else Inr w) of
                    Inl x \<Rightarrow> Inl x
                  | Inr w2 \<Rightarrow>
                      if truthy data
                         \<and> get_property data ''MessageId'' = Some (JStr FILE_RENAME_MESSAGE_ID)
                      then
                        (case get_property data ''Values'' of
                           None \<Rightarrow> Inl (TypeError, w2)
                         | Some msgValue \<Rightarrow>
                             if msgValue = JNull then Inl (TypeError, w2)
                             else
                               (case ToString_operand (Number_toString h)
                                       (get_property msgValue ''NewName'') of
                                  Inl e \<Rightarrow> Inl (e, w2)
                                | Inr name' \<Rightarrow>
                                    (let newName = name' @ ''.'' @ fileExtension h;
                                         newTitle =
                                           dollar_t h ''%1 on %2''
                                             ''office_online_window_title_with_file_name''
                                             newName (titleWithNoFilename h)
                                     in Inr (w2\<lparr>parent_title := newTitle\<rparr>))))
                      else Inr w2)))"

section \<open>Delivery of message events\<close>

text \<open>
  Modelled from the spec: the browser and the host's event service deliver a message
  event to ``the global message event'' subscription. The handlers subscribed for
  \<^verbatim>\<open>message\<close> when the event arrives run in the order of their subscription; a handler
  that throws ends the delivery of that event.
\<close>

fun invoke :: "host \<Rightarrow> handler \<Rightarrow> event \<Rightarrow> world \<Rightarrow> outcome" where
  "invoke h ReceiveEventFromOfficeOnline ev w = receiveEventFromOfficeOnline h ev w"

fun dispatch :: "host \<Rightarrow> event \<Rightarrow> (string \<times> handler) list \<Rightarrow> world \<Rightarrow> outcome" where
  "dispatch h ev [] w = Inr w"
| "dispatch h ev ((ty, fn) # ls) w =
     (if ty = ''message'' then
        (case invoke h fn ev w of
           Inl x \<Rightarrow> Inl x
         | Inr w1 \<Rightarrow> dispatch h ev ls w1)
      else dispatch h ev ls w)"

definition deliver :: "host \<Rightarrow> event \<Rightarrow> world \<Rightarrow> outcome" where
  "deliver h ev w = dispatch h ev (listeners w) w"

text \<open>
  What happens to the module on a page: the framework calls \<^verbatim>\<open>init\<close> or \<^verbatim>\<open>destroy\<close>, or
  a message event arrives. An uncaught error ends the call that raised it and nothing
  else: the page goes on from the state left behind.
\<close>

datatype call = CallInit | CallDestroy | Message event

fun step :: "host \<Rightarrow> call \<Rightarrow> world \<Rightarrow> outcome" where
  "step h CallInit w = init h w"
| "step h CallDestroy w = destroy w"
| "step h (Message ev) w = deliver h ev w"

fun run :: "host \<Rightarrow> call list \<Rightarrow> world \<Rightarrow> world" where
  "run h [] w = w"
| "run h (c # cs) w = run h cs (world_after (step h c w))"

section \<open>Notions the properties are stated with\<close>

text \<open>
  The value of a \<^verbatim>\<open>sandbox\<close> attribute is a set of tokens separated by spaces.
\<close>

fun split_tokens :: "string \<Rightarrow> string \<Rightarrow> string list" where
  "split_tokens cur [] = (if cur = [] then [] else [cur])"
| "split_tokens cur (c # cs) =
     (if c = CHR '' '' then (if cur = [] then split_tokens [] cs else cur # split_tokens [] cs)
      else split_tokens (cur @ [c]) cs)"

definition sandbox_tokens :: "string \<Rightarrow> string set" where
  "sandbox_tokens s = set (split_tokens [] s)"

definition base_permissions :: "string set" where
  "base_permissions =
     {''allow-scripts'', ''allow-forms'', ''allow-popups'', ''allow-top-navigation'',
      ''allow-popups-to-escape-sandbox'', ''allow-downloads''}"

text \<open>
  A posted message is a ready message when its text is the serialisation of an object
  with the three properties of the outbound wire format, sent to the configured origin.
\<close>

definition ready_post :: "host \<Rightarrow> string \<times> string \<Rightarrow> bool" where
  "ready_post h p =
     (\<exists>t. p = (JSON_stringify h
                  (JObj [(''MessageId'', JStr ''Host_PostmessageReady''),
                         (''SendTime'', JNum (of_int t)),
                         (''Values'', JObj [])]),
                origin h))"

text \<open>The two milestones, each with its slow-load variant.\<close>

definition iframe_event :: "log_entry \<Rightarrow> bool" where
  "iframe_event e =
     (event_name (sent_params e) = ''IFRAME_LOAD_TIME''
      \<or> event_name (sent_params e) = ''IFRAME_LOAD_TIME_slow'')"

definition editor_event :: "log_entry \<Rightarrow> bool" where
  "editor_event e =
     (event_name (sent_params e) = ''EDITOR_LOAD_TIME''
      \<or> event_name (sent_params e) = ''EDITOR_LOAD_TIME_slow'')"

text \<open>
  The records one call of \<^verbatim>\<open>logLoadTime\<close> sends for an event name and an elapsed time.
\<close>

definition load_records :: "host \<Rightarrow> string \<Rightarrow> real \<Rightarrow> log_entry list" where
  "load_records h eventName elapsed =
     (let first = \<lparr>category = ''office_online'', event_type = ''perf'',
                   sent_params = \<lparr>event_name = eventName, load_time = elapsed,
                                   service_id = serviceId h,
                                   office_online_app_type = officeOnlineAppType h\<rparr>\<rparr>
      in if elapsed \<ge> 10000
         then [first, first\<lparr>sent_params := (sent_params first)\<lparr>event_name := eventName @ ''_slow''\<rparr>\<rparr>]
         else [first])"

text \<open>
  What holds of the state during a session whose \<^verbatim>\<open>init\<close> made the clock reading number
  \<open>r0\<close>: that reading is the start timestamp, and every record logged so far carries the
  double difference between a later reading and it; for the frame-insertion milestone the
  later reading is the next one.
\<close>

definition timing_invariant :: "host \<Rightarrow> nat \<Rightarrow> world \<Rightarrow> bool" where
  "timing_invariant h r0 w =
     (startTs w = Some (performance_now h r0)
      \<and> r0 < perf_calls w
      \<and> (\<forall>e \<in> set (sent_logs w).
            \<exists>k. r0 < k \<and> k < perf_calls w
              \<and> load_time (sent_params e)
                  = double_minus (performance_now h k) (performance_now h r0)
              \<and> (iframe_event e \<longrightarrow> k = Suc r0)))"

text \<open>
  From state \<open>w\<close> to state \<open>w'\<close> nothing was posted to the frame but ready messages.
\<close>

definition posts_ready :: "host \<Rightarrow> world \<Rightarrow> world \<Rightarrow> bool" where
  "posts_ready h w w' = (\<exists>ps. posted w' = posted w @ ps \<and> list_all (ready_post h) ps)"

section \<open>A page to evaluate the model on\<close>

text \<open>
  A concrete environment for the examples. Its clock advances by six seconds per
  reading. \<open>example_parse\<close> is the table of the payloads the examples use, each with the
  value \<^verbatim>\<open>JSON.parse\<close> gives for it; the examples use no other string but
  \<^verbatim>\<open>not json\<close>, which \<^verbatim>\<open>JSON.parse\<close> rejects. \<open>example_stringify\<close> is
  \<^verbatim>\<open>JSON.stringify\<close> on the ready message, whose \<^verbatim>\<open>SendTime\<close> in the examples is
  1700000000000.
\<close>

definition example_parse :: "string \<Rightarrow> json option" where
  "example_parse s =
     (if s = ''{\"MessageId\":\"App_LoadingStatus\"}'' then
        Some (JObj [(''MessageId'', JStr ''App_LoadingStatus'')])
      else if s = ''{\"MessageId\":\"File_Rename\",\"Values\":{\"NewName\":\"Report\"}}'' then
        Some (JObj [(''MessageId'', JStr ''File_Rename''),
                    (''Values'', JObj [(''NewName'', JStr ''Report'')])])
      else if s = ''{\"MessageId\":\"File_Rename\"}'' then
        Some (JObj [(''MessageId'', JStr ''File_Rename'')])
      else if s = ''{\"MessageId\":\"App_Unknown\"}'' then
        Some (JObj [(''MessageId'', JStr ''App_Unknown'')])
      else None)"

definition example_stringify :: "json \<Rightarrow> string" where
  "example_stringify v =
     (if v = JObj [(''MessageId'', JStr ''Host_PostmessageReady''),
                   (''SendTime'', JNum 1700000000000),
                   (''Values'', JObj [])]
      then ''{\"MessageId\":\"Host_PostmessageReady\",\"SendTime\":1700000000000,\"Values\":{}}''
      else [])"

definition example_host :: host where
  "example_host =
     \<lparr>serviceId = ''4321'',
      officeOnlineAppType = ''Excel'',
      fileExtension = ''xlsx'',
      titleWithNoFilename = ''Box for Office Online'',
      origin = ''https://excel.officeapps.live.com'',
      invocationUrl = Some ''https://excel.officeapps.live.com/x/_layouts/xlviewerinternal.aspx'',
      location_href = ''https://app.box.com/services/office_online/4321/1'',
      performance_now = (\<lambda>k. 6000 * real k),
      Date_getTime = (\<lambda>k. 1700000000000 + int k),
      JSON_parse = example_parse,
      JSON_stringify = example_stringify,
      Number_toString = (\<lambda>r. []),
      dollar_t = (\<lambda>fmt key a b. a @ '' on '' @ b)\<rparr>"

definition example_world :: world where
  "example_world =
     \<lparr>startTs = None,
      perf_calls = 0,
      date_calls = 0,
      frame_holder = Some [],
      office_form = Some 0,
      listeners = [],
      sent_logs = [],
      posted = [],
      parent_title = ''Box''\<rparr>"

text \<open>
  The frame \<^verbatim>\<open>getOfficeEditorFrameElement\<close> builds on that page, and the state \<^verbatim>\<open>init\<close>
  leaves behind (\<open>init_example\<close> below): the start timestamp is 0, the frame was inserted
  and \<^verbatim>\<open>IFRAME_LOAD_TIME\<close> logged at 6000 ms, the form was submitted once and the handler
  is subscribed.
\<close>

definition example_frame :: element where
  "example_frame =
     \<lparr>tagName = ''iframe'', name = ''office-editor'', className = ''office-editor-frame'',
      attributes =
        [''allowfullscreen'' \<mapsto> ''true'',
         ''allow'' \<mapsto> ''microphone'',
         ''src'' \<mapsto> ''https://excel.officeapps.live.com/x/_layouts/xlviewerinternal.aspx'',
         ''sandbox'' \<mapsto> ''allow-scripts allow-same-origin allow-forms allow-popups allow-top-navigation allow-popups-to-escape-sandbox allow-downloads'']\<rparr>"

definition example_started :: world where
  "example_started =
     \<lparr>startTs = Some 0,
      perf_calls = 2,
      date_calls = 0,
      frame_holder = Some [example_frame],
      office_form = Some 1,
      listeners = [(''message'', ReceiveEventFromOfficeOnline)],
      sent_logs =
        [\<lparr>category = ''office_online'', event_type = ''perf'',
          sent_params = \<lparr>event_name = ''IFRAME_LOAD_TIME'', load_time = 6000,
                          service_id = ''4321'', office_online_app_type = ''Excel''\<rparr>\<rparr>],
      posted = [],
      parent_title = ''Box''\<rparr>"

text \<open>Message events of the examples.\<close>

definition app_loaded_event :: event where
  "app_loaded_event = \<lparr>originalEvent_data = Some ''{\"MessageId\":\"App_LoadingStatus\"}''\<rparr>"

definition file_rename_event :: event where
  "file_rename_event =
     \<lparr>originalEvent_data = Some ''{\"MessageId\":\"File_Rename\",\"Values\":{\"NewName\":\"Report\"}}''\<rparr>"

definition file_rename_bare_event :: event where
  "file_rename_bare_event = \<lparr>originalEvent_data = Some ''{\"MessageId\":\"File_Rename\"}''\<rparr>"

definition unknown_event :: event where
  "unknown_event = \<lparr>originalEvent_data = Some ''{\"MessageId\":\"App_Unknown\"}''\<rparr>"

definition malformed_event :: event where
  "malformed_event = \<lparr>originalEvent_data = Some ''not json''\<rparr>"

text \<open>
  The state after the editor has then reported \<^verbatim>\<open>App_LoadingStatus\<close> (\<open>app_loaded_example\<close>
  below): \<^verbatim>\<open>EDITOR_LOAD_TIME\<close> was logged at 12000 ms, with its slow variant, and the ready
  message was posted.
\<close>

definition example_loaded :: world where
  "example_loaded =
     example_started
       \<lparr>perf_calls := 3, date_calls := 1,
        sent_logs :=
          [\<lparr>category = ''office_online'', event_type = ''perf'',
            sent_params = \<lparr>event_name = ''IFRAME_LOAD_TIME'', load_time = 6000,
                            service_id = ''4321'', office_online_app_type = ''Excel''\<rparr>\<rparr>,
           \<lparr>category = ''office_online'', event_type = ''perf'',
            sent_params = \<lparr>event_name = ''EDITOR_LOAD_TIME'', load_time = 12000,
                            service_id = ''4321'', office_online_app_type = ''Excel''\<rparr>\<rparr>,
           \<lparr>category = ''office_online'', event_type = ''perf'',
            sent_params = \<lparr>event_name = ''EDITOR_LOAD_TIME_slow'', load_time = 12000,
                            service_id = ''4321'', office_online_app_type = ''Excel''\<rparr>\<rparr>],
        posted :=
          [(''{\"MessageId\":\"Host_PostmessageReady\",\"SendTime\":1700000000000,\"Values\":{}}'',
            ''https://excel.officeapps.live.com'')]\<rparr>"

section \<open>Rounding to a double is monotone\<close>

lemma round_half_even_of_int: "round_half_even (of_int n) = n"
  by (simp add: round_half_even_def)

lemma round_half_even_mono: "z \<le> z' \<Longrightarrow> round_half_even z \<le> round_half_even z'"
proof -
  assume le: "z \<le> z'"
  then have f: "\<lfloor>z\<rfloor> \<le> \<lfloor>z'\<rfloor>" by (rule floor_mono)
  show ?thesis
  proof (cases "\<lfloor>z\<rfloor> = \<lfloor>z'\<rfloor>")
    case True
    with le show ?thesis by (auto simp: round_half_even_def)
  next
    case False
    with f have "\<lfloor>z\<rfloor> + 1 \<le> \<lfloor>z'\<rfloor>" by simp
    moreover have "round_half_even z \<le> \<lfloor>z\<rfloor> + 1" by (simp add: round_half_even_def)
    moreover have "\<lfloor>z'\<rfloor> \<le> round_half_even z'" by (simp add: round_half_even_def)
    ultimately show ?thesis by linarith
  qed
qed

lemma round_half_even_minus: "round_half_even (- z) = - round_half_even z"
proof (cases "z \<in> \<int>")
  case True
  then obtain n where "z = of_int n" by (auto elim: Ints_cases)
  then show ?thesis
    by (metis of_int_minus round_half_even_of_int)
next
  case False
  then have ne: "z \<noteq> of_int \<lfloor>z\<rfloor>" by (metis Ints_of_int)
  then have fl: "\<lfloor>- z\<rfloor> = - \<lfloor>z\<rfloor> - 1"
    by (simp add: floor_minus ceiling_altdef)
  have lt: "of_int \<lfloor>z\<rfloor> < z" using ne of_int_floor_le [of z] by linarith
  show ?thesis
    unfolding round_half_even_def fl using lt
    by (auto simp: algebra_simps)
qed

lemma floor_log2_bounds:
  assumes "0 < x"
  shows "2 powi \<lfloor>log 2 x\<rfloor> \<le> x" and "x < 2 powi (\<lfloor>log 2 x\<rfloor> + 1)"
proof -
  have p: "2 powr real_of_int j = 2 powi j" for j
    by (simp add: powr_real_of_int')
  from floor_log_eq_powr_iff [of x 2 "\<lfloor>log 2 x\<rfloor>"] assms
  have "2 powr real_of_int \<lfloor>log 2 x\<rfloor> \<le> x"
    and "x < 2 powr real_of_int (\<lfloor>log 2 x\<rfloor> + 1)"
    by simp_all
  then show "2 powi \<lfloor>log 2 x\<rfloor> \<le> x" and "x < 2 powi (\<lfloor>log 2 x\<rfloor> + 1)"
    unfolding p by simp_all
qed

lemma floor_log2_eq:
  assumes "2 powi k \<le> x" and "x < 2 powi (k + 1)"
  shows "\<lfloor>log 2 x\<rfloor> = k"
proof -
  have "(0::real) < 2 powi k" by simp
  with assms(1) have "0 < x" by linarith
  have p: "2 powr real_of_int j = 2 powi j" for j
    by (simp add: powr_real_of_int')
  from assms have "2 powr real_of_int k \<le> x" and "x < 2 powr (real_of_int k + 1)"
    using p [of k] p [of "k + 1"] by simp_all
  with \<open>0 < x\<close> show ?thesis
    using floor_log_eq_powr_iff [of x 2 k] by simp
qed


lemma round_half_even_le_int: "z \<le> of_int n \<Longrightarrow> round_half_even z \<le> n"
  using round_half_even_mono [of z "of_int n"] by (simp add: round_half_even_of_int)

lemma round_half_even_ge_int: "of_int n \<le> z \<Longrightarrow> n \<le> round_half_even z"
  using round_half_even_mono [of "of_int n" z] by (simp add: round_half_even_of_int)

lemma two_powi_int: "0 \<le> j \<Longrightarrow> (2::real) powi j = of_int (2 ^ nat j)"
  by (simp add: power_int_def)

lemma ulp_exponent_minus: "ulp_exponent (- x) = ulp_exponent x"
  by (simp add: ulp_exponent_def)

lemma round_double_minus: "round_double (- x) = - round_double x"
  by (simp add: round_double_def ulp_exponent_minus round_half_even_minus)

lemma round_double_nonneg: "0 \<le> x \<Longrightarrow> 0 \<le> round_double x"
proof -
  assume "0 \<le> x"
  then have "0 \<le> x / 2 powi ulp_exponent x" by simp
  then have "0 \<le> round_half_even (x / 2 powi ulp_exponent x)"
    using round_half_even_ge_int [of 0] by simp
  then show ?thesis by (simp add: round_double_def)
qed

lemma round_double_mono_pos:
  assumes "0 < x" and "x \<le> y"
  shows "round_double x \<le> round_double y"
proof -
  from assms have y: "0 < y" by simp
  let ?kx = "\<lfloor>log 2 x\<rfloor>" and ?ky = "\<lfloor>log 2 y\<rfloor>"
  let ?ex = "ulp_exponent x" and ?ey = "ulp_exponent y"
  have k: "?kx \<le> ?ky" using assms by (intro floor_mono) simp
  have ex: "?ex = max (?kx - 52) (- 1074)" and ey: "?ey = max (?ky - 52) (- 1074)"
    using assms y by (simp_all add: ulp_exponent_def)
  have e: "?ex \<le> ?ey" using k unfolding ex ey by simp
  have rx: "round_double x = of_int (round_half_even (x / 2 powi ?ex)) * 2 powi ?ex"
    using assms by (simp add: round_double_def)
  have ry: "round_double y = of_int (round_half_even (y / 2 powi ?ey)) * 2 powi ?ey"
    using y by (simp add: round_double_def)
  show ?thesis
  proof (cases "?ex = ?ey")
    case True
    have "x / 2 powi ?ey \<le> y / 2 powi ?ey"
      using assms by (simp add: divide_right_mono)
    then have "round_half_even (x / 2 powi ?ey) \<le> round_half_even (y / 2 powi ?ey)"
      by (rule round_half_even_mono)
    then have "real_of_int (round_half_even (x / 2 powi ?ey)) * 2 powi ?ey
        \<le> real_of_int (round_half_even (y / 2 powi ?ey)) * 2 powi ?ey"
      by (simp add: mult_right_mono)
    then show ?thesis unfolding rx ry True .
  next
    case False
    with e have lt: "?ex < ?ey" by simp
    then have eky: "?ey = ?ky - 52" unfolding ex ey by linarith
    from lt have kk: "?kx + 1 \<le> ?ky" unfolding ex ey by linarith
    have pos: "0 \<le> ?ky - ?ex" using lt eky by linarith
    have "2 powi ?ky \<le> y" using y by (rule floor_log2_bounds)
    then have "2 powi ?ky / 2 powi ?ey \<le> y / 2 powi ?ey"
      by (simp add: divide_right_mono)
    moreover have "(2::real) powi ?ky / 2 powi ?ey = of_int (2 ^ 52)"
      using power_int_diff [of "2::real" ?ky ?ey] eky by simp
    ultimately have "2 ^ 52 \<le> round_half_even (y / 2 powi ?ey)"
      using round_half_even_ge_int [of "2 ^ 52" "y / 2 powi ?ey"] by simp
    then have "real_of_int (2 ^ 52) * 2 powi ?ey \<le> round_double y"
      unfolding ry by (intro mult_right_mono) simp_all
    moreover have "real_of_int (2 ^ 52) * 2 powi ?ey = 2 powi ?ky"
      using power_int_add [of "2::real" 52 ?ey] eky by simp
    ultimately have low: "2 powi ?ky \<le> round_double y" by simp
    have "x < 2 powi (?kx + 1)" using assms(1) by (rule floor_log2_bounds)
    moreover have "(2::real) powi (?kx + 1) \<le> 2 powi ?ky"
      using kk by (intro power_int_increasing) simp_all
    ultimately have "x \<le> 2 powi ?ky" by simp
    then have "x / 2 powi ?ex \<le> 2 powi ?ky / 2 powi ?ex"
      by (simp add: divide_right_mono)
    moreover have "(2::real) powi ?ky / 2 powi ?ex = of_int (2 ^ nat (?ky - ?ex))"
      using power_int_diff [of "2::real" ?ky ?ex] two_powi_int [OF pos] by simp
    ultimately have "round_half_even (x / 2 powi ?ex) \<le> 2 ^ nat (?ky - ?ex)"
      using round_half_even_le_int [of "x / 2 powi ?ex" "2 ^ nat (?ky - ?ex)"] by simp
    then have "round_double x \<le> real_of_int (2 ^ nat (?ky - ?ex)) * 2 powi ?ex"
      unfolding rx by (intro mult_right_mono) simp_all
    moreover have "real_of_int (2 ^ nat (?ky - ?ex)) * 2 powi ?ex = 2 powi ?ky"
      using power_int_add [of "2::real" "?ky - ?ex" ?ex] two_powi_int [OF pos] by simp
    ultimately have "round_double x \<le> 2 powi ?ky" by simp
    with low show ?thesis by simp
  qed
qed

lemma round_double_mono: "x \<le> y \<Longrightarrow> round_double x \<le> round_double y"
proof -
  assume le: "x \<le> y"
  consider "0 < x" | "x \<le> 0" "0 \<le> y" | "y < 0" by linarith
  then show ?thesis
  proof cases
    case 1
    then show ?thesis using le by (rule round_double_mono_pos)
  next
    case 2
    have "round_double x = - round_double (- x)" by (simp add: round_double_minus)
    moreover have "0 \<le> round_double (- x)" using 2(1) by (intro round_double_nonneg) simp
    moreover have "0 \<le> round_double y" using 2(2) by (rule round_double_nonneg)
    ultimately show ?thesis by simp
  next
    case 3
    then have "0 < - y" and "- y \<le> - x" using le by simp_all
    then have "round_double (- y) \<le> round_double (- x)" by (rule round_double_mono_pos)
    then show ?thesis by (simp add: round_double_minus)
  qed
qed

lemma round_double_eval:
  assumes "2 powi k \<le> \<bar>x\<bar>" and "\<bar>x\<bar> < 2 powi (k + 1)"
  shows "round_double x =
     of_int (round_half_even (x / 2 powi max (k - 52) (- 1074))) * 2 powi max (k - 52) (- 1074)"
proof -
  have "\<lfloor>log 2 \<bar>x\<bar>\<rfloor> = k" using assms by (rule floor_log2_eq)
  moreover have "x \<noteq> 0"
  proof
    assume "x = 0"
    with assms(1) have "(2::real) powi k \<le> 0" by simp
    moreover have "(0::real) < 2 powi k" by simp
    ultimately show False by linarith
  qed
  ultimately show ?thesis by (simp add: round_double_def ulp_exponent_def)
qed

lemma double_minus_mono: "a \<le> b \<Longrightarrow> double_minus a s \<le> double_minus b s"
  unfolding double_minus_def by (rule round_double_mono) simp

text \<open>
  Differences the examples use. The last two are at the threshold of ten seconds: the
  readings are the doubles nearest to 0.3 and 10000.3, and \<open>2 powi (- 44)\<close> and 10000; the
  exact differences lie below 10000 and the double differences are 10000.
\<close>

lemma double_minus_examples:
  "double_minus 6000 0 = 6000"
  "double_minus 12000 0 = 12000"
  "double_minus (2748861532812083 / 274877906944) (5404319552844595 / 18014398509481984) = 10000"
  "double_minus 10000 (1 / 17592186044416) = 10000"
proof -
  show "double_minus 6000 0 = 6000"
    using round_double_eval [of 12 6000] by (simp add: double_minus_def round_half_even_def)
  show "double_minus 12000 0 = 12000"
    using round_double_eval [of 13 12000] by (simp add: double_minus_def round_half_even_def)
  show "double_minus (2748861532812083 / 274877906944) (5404319552844595 / 18014398509481984) = 10000"
    using round_double_eval
      [of 13 "2748861532812083 / 274877906944 - 5404319552844595 / 18014398509481984"]
    by (simp add: double_minus_def round_half_even_def)
  show "double_minus 10000 (1 / 17592186044416) = 10000"
    using round_double_eval [of 13 "10000 - 1 / 17592186044416"]
    by (simp add: double_minus_def round_half_even_def)
qed

lemma exact_differences_below_threshold:
  "2748861532812083 / 274877906944 - 5404319552844595 / 18014398509481984 < (10000::real)"
  "10000 - 1 / 17592186044416 < (10000::real)"
  by simp_all

section \<open>Decoding and matching\<close>

lemma UTF16EncodeCodePoint_nonempty: "UTF16EncodeCodePoint V \<noteq> []"
  by (simp add: UTF16EncodeCodePoint_def)

lemma decodeURIComponent_nonempty:
  "decodeURIComponent s = Inr r \<Longrightarrow> s \<noteq> [] \<Longrightarrow> r \<noteq> []"
  by (cases s) (auto simp: UTF16EncodeCodePoint_nonempty split: sum.splits option.splits if_splits)

lemma getParameterByName_truthy:
  "getParameterByName pname url = Inr p \<Longrightarrow>
     truthy_param p = (case regex_exec pname url of Some (Some (c # cs)) \<Rightarrow> True | _ \<Rightarrow> False)"
  by (auto simp: getParameterByName_def dest: decodeURIComponent_nonempty
           split: option.splits sum.splits if_splits list.splits)

lemma decodeURIComponent_error: "decodeURIComponent s = Inl e \<Longrightarrow> e = URIError"
  by (induction s arbitrary: e rule: decodeURIComponent.induct)
     (auto split: sum.splits option.splits if_splits)

lemma getParameterByName_error:
  "getParameterByName pname url = Inl e \<Longrightarrow> e = URIError"
  by (auto simp: getParameterByName_def dest: decodeURIComponent_error
           split: option.splits sum.splits if_splits)

lemma regex_exec_Cons_None: "regex_exec n (a # url) = None \<Longrightarrow> regex_exec n url = None"
  by (auto split: if_splits list.splits)

lemma regex_exec_None_iff:
  "regex_exec n url = None \<longleftrightarrow>
     (\<forall>p c s. url = p @ c # n @ s \<longrightarrow> c = CHR ''?'' \<or> c = CHR ''&'' \<longrightarrow>
        s \<noteq> [] \<and> hd s \<noteq> CHR ''='' \<and> hd s \<noteq> CHR ''&'' \<and> hd s \<noteq> CHR ''#'')"
proof (induction url)
  case Nil
  show ?case by simp
next
  case (Cons a u)
  show ?case
  proof
    assume none: "regex_exec n (a # u) = None"
    show "\<forall>p c s. a # u = p @ c # n @ s \<longrightarrow> c = CHR ''?'' \<or> c = CHR ''&'' \<longrightarrow>
        s \<noteq> [] \<and> hd s \<noteq> CHR ''='' \<and> hd s \<noteq> CHR ''&'' \<and> hd s \<noteq> CHR ''#''"
    proof (intro allI impI)
      fix p c s
      assume eq: "a # u = p @ c # n @ s" and c: "c = CHR ''?'' \<or> c = CHR ''&''"
      show "s \<noteq> [] \<and> hd s \<noteq> CHR ''='' \<and> hd s \<noteq> CHR ''&'' \<and> hd s \<noteq> CHR ''#''"
      proof (cases p)
        case Nil
        with eq have "a = c" and u: "u = n @ s" by simp_all
        with none c show ?thesis
          by (cases s) (auto split: if_splits)
      next
        case (Cons b p')
        with eq have "u = p' @ c # n @ s" by simp
        moreover have "regex_exec n u = None" using none by (rule regex_exec_Cons_None)
        ultimately show ?thesis using Cons.IH c by blast
      qed
    qed
  next
    assume all: "\<forall>p c s. a # u = p @ c # n @ s \<longrightarrow> c = CHR ''?'' \<or> c = CHR ''&'' \<longrightarrow>
        s \<noteq> [] \<and> hd s \<noteq> CHR ''='' \<and> hd s \<noteq> CHR ''&'' \<and> hd s \<noteq> CHR ''#''"
    have "\<forall>p c s. u = p @ c # n @ s \<longrightarrow> c = CHR ''?'' \<or> c = CHR ''&'' \<longrightarrow>
        s \<noteq> [] \<and> hd s \<noteq> CHR ''='' \<and> hd s \<noteq> CHR ''&'' \<and> hd s \<noteq> CHR ''#''"
    proof (intro allI impI)
      fix p c s
      assume "u = p @ c # n @ s" and c: "c = CHR ''?'' \<or> c = CHR ''&''"
      then have "a # u = (a # p) @ c # n @ s" by simp
      with all c show "s \<noteq> [] \<and> hd s \<noteq> CHR ''='' \<and> hd s \<noteq> CHR ''&'' \<and> hd s \<noteq> CHR ''#''"
        by blast
    qed
    then have rec: "regex_exec n u = None" using Cons.IH by simp
    show "regex_exec n (a # u) = None"
    proof (cases "(a = CHR ''?'' \<or> a = CHR ''&'') \<and> take (length n) u = n")
      case False
      then show ?thesis using rec by auto
    next
      case True
      then have "a # u = [] @ a # n @ drop (length n) u"
        by (metis append_Nil append_take_drop_id)
      with all True have "drop (length n) u \<noteq> [] \<and> hd (drop (length n) u) \<noteq> CHR ''=''
          \<and> hd (drop (length n) u) \<noteq> CHR ''&'' \<and> hd (drop (length n) u) \<noteq> CHR ''#''"
        by blast
      then show ?thesis using rec True
        by (cases "drop (length n) u") auto
    qed
  qed
qed

text \<open>
  A page URL with no query yet, to which the parameter is appended with a value.
\<close>

lemma regex_exec_no_marker:
  "CHR ''?'' \<notin> set base \<Longrightarrow> CHR ''&'' \<notin> set base \<Longrightarrow> regex_exec n (base @ rest) = regex_exec n rest"
  by (induction base) auto

lemma regex_exec_query_value:
  assumes "CHR ''?'' \<notin> set base" "CHR ''&'' \<notin> set base"
    and "CHR ''&'' \<notin> set v" "CHR ''#'' \<notin> set v"
    and "rest = [] \<or> hd rest = CHR ''&'' \<or> hd rest = CHR ''#''"
  shows "regex_exec n (base @ ''?'' @ n @ ''='' @ v @ rest) = Some (Some v)"
proof -
  have "takeWhile (\<lambda>x. x \<noteq> CHR ''&'' \<and> x \<noteq> CHR ''#'') rest = []"
    using assms(5) by (cases rest) auto
  then have "takeWhile (\<lambda>x. x \<noteq> CHR ''&'' \<and> x \<noteq> CHR ''#'') (v @ rest) = v"
    using assms(3,4) by (induction v) auto
  then show ?thesis
    using assms(1,2) by (simp add: regex_exec_no_marker)
qed

section \<open>The frame element and its sandbox\<close>

lemma sandbox_tokens_permissive:
  "sandbox_tokens ''allow-scripts allow-same-origin allow-forms allow-popups allow-top-navigation allow-popups-to-escape-sandbox allow-downloads''
     = insert ''allow-same-origin'' base_permissions"
  by (simp add: sandbox_tokens_def base_permissions_def insert_commute)

lemma sandbox_tokens_restrictive:
  "sandbox_tokens ''allow-scripts allow-forms allow-popups allow-top-navigation allow-popups-to-escape-sandbox allow-downloads''
     = base_permissions"
  by (simp add: sandbox_tokens_def base_permissions_def insert_commute)

lemma getOfficeEditorFrameElement_InrD:
  "getOfficeEditorFrameElement h = Inr f \<Longrightarrow>
     \<exists>u p. invocationUrl h = Some u \<and> getParameterByName DISABLE_SAME_ORIGIN_KEY (location_href h) = Inr p"
  by (auto simp: getOfficeEditorFrameElement_def Let_def split: option.splits sum.splits)

text \<open>
  C6. \<^verbatim>\<open>getOfficeEditorFrameElement\<close> returns an \<^verbatim>\<open>iframe\<close> element with the fixed name
  \<^verbatim>\<open>office-editor\<close> and the fixed class \<^verbatim>\<open>office-editor-frame\<close>, with
  \<^verbatim>\<open>allowfullscreen\<close> set to \<^verbatim>\<open>true\<close> and \<^verbatim>\<open>allow\<close> set to \<^verbatim>\<open>microphone\<close>, and with \<^verbatim>\<open>src\<close>
  set to the editor URL \<^verbatim>\<open>invocationUrl\<close>. It returns whenever that URL is defined and the
  flag can be read from the page URL; by \<open>getOfficeEditorFrameElement_InrD\<close> it returns in
  no other case.
\<close>

theorem frame_element_attributes:
  assumes "invocationUrl h = Some u"
    and "getParameterByName DISABLE_SAME_ORIGIN_KEY (location_href h) = Inr p"
  shows "\<exists>f. getOfficeEditorFrameElement h = Inr f
           \<and> tagName f = ''iframe''
           \<and> name f = ''office-editor''
           \<and> className f = ''office-editor-frame''
           \<and> attributes f ''allowfullscreen'' = Some ''true''
           \<and> attributes f ''allow'' = Some ''microphone''
           \<and> attributes f ''src'' = Some u"
  using assms
  by (simp add: getOfficeEditorFrameElement_def Let_def createElement_def setAttribute_def
        EDITOR_IFRAME_NAME_def EDITOR_IFRAME_CLASS_def)

theorem frame_element_attributes_witness:
  "invocationUrl example_host
     = Some ''https://excel.officeapps.live.com/x/_layouts/xlviewerinternal.aspx''
   \<and> getParameterByName DISABLE_SAME_ORIGIN_KEY (location_href example_host) = Inr None
   \<and> (\<exists>f. getOfficeEditorFrameElement example_host = Inr f
           \<and> tagName f = ''iframe''
           \<and> name f = ''office-editor''
           \<and> className f = ''office-editor-frame''
           \<and> attributes f ''allowfullscreen'' = Some ''true''
           \<and> attributes f ''allow'' = Some ''microphone''
           \<and> attributes f ''src''
               = Some ''https://excel.officeapps.live.com/x/_layouts/xlviewerinternal.aspx'')"
proof -
  have u: "invocationUrl example_host
     = Some ''https://excel.officeapps.live.com/x/_layouts/xlviewerinternal.aspx''"
    by (simp add: example_host_def)
  have "regex_exec DISABLE_SAME_ORIGIN_KEY (location_href example_host) = None"
    by (simp add: example_host_def DISABLE_SAME_ORIGIN_KEY_def)
  then have p: "getParameterByName DISABLE_SAME_ORIGIN_KEY (location_href example_host) = Inr None"
    by (simp add: getParameterByName_def)
  from u p frame_element_attributes [OF u p] show ?thesis by simp
qed

text \<open>
  The flag appended to a page URL that has no query yet, with any value that is not empty
  and decodes: the frame is built with the base permissions alone.
\<close>

lemma flag_appended_restrictive:
  assumes "invocationUrl h = Some u"
    and "location_href h = base @ ''?'' @ DISABLE_SAME_ORIGIN_KEY @ ''='' @ v @ rest"
    and "CHR ''?'' \<notin> set base" and "CHR ''&'' \<notin> set base"
    and "v \<noteq> []" and "CHR ''&'' \<notin> set v" and "CHR ''#'' \<notin> set v"
    and "rest = [] \<or> hd rest = CHR ''&'' \<or> hd rest = CHR ''#''"
    and "decodeURIComponent (map (\<lambda>c. if c = CHR ''+'' then CHR '' '' else c) v) = Inr s"
  shows "\<exists>f. getOfficeEditorFrameElement h = Inr f
           \<and> attributes f ''sandbox''
               = Some ''allow-scripts allow-forms allow-popups allow-top-navigation allow-popups-to-escape-sandbox allow-downloads''"
proof -
  have "regex_exec DISABLE_SAME_ORIGIN_KEY (location_href h) = Some (Some v)"
    unfolding assms(2) using assms(3,4,6,7,8) by (rule regex_exec_query_value)
  then have g: "getParameterByName DISABLE_SAME_ORIGIN_KEY (location_href h) = Inr (Some s)"
    using assms(5,9) by (simp add: getParameterByName_def)
  from assms(5,9) have "s \<noteq> []"
    using decodeURIComponent_nonempty [of "map (\<lambda>c. if c = CHR ''+'' then CHR '' '' else c) v" s]
    by simp
  with g assms(1) show ?thesis
    by (simp add: getOfficeEditorFrameElement_def Let_def setAttribute_def)
qed

text \<open>
  A value with a malformed escape makes \<^verbatim>\<open>decodeURIComponent\<close> throw, and no frame is
  built.
\<close>

lemma flag_undecodable_example:
  "getOfficeEditorFrameElement
     (example_host\<lparr>location_href := ''https://app.box.com/office?disableAllowSameOrigin=%''\<rparr>)
   = Inl URIError"
proof -
  have "regex_exec DISABLE_SAME_ORIGIN_KEY ''https://app.box.com/office?disableAllowSameOrigin=%''
      = Some (Some ''%'')"
    by (simp add: DISABLE_SAME_ORIGIN_KEY_def)
  then have "getParameterByName DISABLE_SAME_ORIGIN_KEY
      ''https://app.box.com/office?disableAllowSameOrigin=%'' = Inl URIError"
    by (simp add: getParameterByName_def)
  then show ?thesis
    by (simp add: getOfficeEditorFrameElement_def Let_def example_host_def)
qed

text \<open>
  C1, as amended. Whenever the frame element is built, its \<^verbatim>\<open>sandbox\<close> attribute is the
  base permission set alone when the first occurrence of the parameter
  \<^verbatim>\<open>disableAllowSameOrigin\<close> in the page URL carries a value that is not empty (the string
  \<^verbatim>\<open>false\<close> included). It is the base set plus \<^verbatim>\<open>allow-same-origin\<close> when the parameter is
  absent from the page URL, and also when it is present with no value or with an empty
  value. (\<open>regex_exec_None_iff\<close> says what absent means: no \<^verbatim>\<open>?\<close> or \<^verbatim>\<open>&\<close> of the URL
  is followed by the name and then by \<^verbatim>\<open>=\<close>, \<^verbatim>\<open>&\<close>, \<^verbatim>\<open>#\<close> or the end.)
\<close>

theorem sandbox_attribute_by_flag:
  assumes "getOfficeEditorFrameElement h = Inr f"
  shows "\<exists>s. attributes f ''sandbox'' = Some s
           \<and> sandbox_tokens s =
               (case regex_exec DISABLE_SAME_ORIGIN_KEY (location_href h) of
                  Some (Some (c # cs)) \<Rightarrow> base_permissions
                | _ \<Rightarrow> insert ''allow-same-origin'' base_permissions)"
proof -
  from assms obtain u p where u: "invocationUrl h = Some u"
    and p: "getParameterByName DISABLE_SAME_ORIGIN_KEY (location_href h) = Inr p"
    using getOfficeEditorFrameElement_InrD by blast
  show ?thesis
  proof (cases "truthy_param p")
    case True
    with assms u p have "attributes f ''sandbox'' = Some ''allow-scripts allow-forms allow-popups allow-top-navigation allow-popups-to-escape-sandbox allow-downloads''"
      by (auto simp: getOfficeEditorFrameElement_def Let_def setAttribute_def)
    moreover from True getParameterByName_truthy [OF p]
    have "(case regex_exec DISABLE_SAME_ORIGIN_KEY (location_href h) of
                  Some (Some (c # cs)) \<Rightarrow> base_permissions
                | _ \<Rightarrow> insert ''allow-same-origin'' base_permissions) = base_permissions"
      by (auto split: option.splits list.splits)
    ultimately show ?thesis by (simp add: sandbox_tokens_restrictive)
  next
    case False
    with assms u p have "attributes f ''sandbox'' = Some ''allow-scripts allow-same-origin allow-forms allow-popups allow-top-navigation allow-popups-to-escape-sandbox allow-downloads''"
      by (auto simp: getOfficeEditorFrameElement_def Let_def setAttribute_def)
    moreover from False getParameterByName_truthy [OF p]
    have "(case regex_exec DISABLE_SAME_ORIGIN_KEY (location_href h) of
                  Some (Some (c # cs)) \<Rightarrow> base_permissions
                | _ \<Rightarrow> insert ''allow-same-origin'' base_permissions) = insert ''allow-same-origin'' base_permissions"
      by (auto split: option.splits list.splits)
    ultimately show ?thesis by (simp add: sandbox_tokens_permissive)
  qed
qed

theorem sandbox_attribute_by_flag_witness:
  "\<exists>f. getOfficeEditorFrameElement
          (example_host\<lparr>location_href := ''https://app.box.com/office?disableAllowSameOrigin=false''\<rparr>) = Inr f
       \<and> (\<exists>s. attributes f ''sandbox'' = Some s \<and> sandbox_tokens s = base_permissions)"
proof -
  let ?h = "example_host\<lparr>location_href := ''https://app.box.com/office?disableAllowSameOrigin=false''\<rparr>"
  have r: "regex_exec DISABLE_SAME_ORIGIN_KEY (location_href ?h) = Some (Some ''false'')"
    by (simp add: DISABLE_SAME_ORIGIN_KEY_def)
  have "getParameterByName DISABLE_SAME_ORIGIN_KEY (location_href ?h) = Inr (Some [102, 97, 108, 115, 101])"
    unfolding getParameterByName_def r by simp
  then obtain f where f: "getOfficeEditorFrameElement ?h = Inr f"
    by (simp add: getOfficeEditorFrameElement_def Let_def example_host_def)
  from sandbox_attribute_by_flag [OF f] r f show ?thesis by simp
qed

text \<open>
  C1 as stated fails for a parameter that is present with an empty value: the page URL
  ends in \<^verbatim>\<open>?disableAllowSameOrigin=\<close>, the search finds the parameter, and the frame
  is built with \<^verbatim>\<open>allow-same-origin\<close> in its sandbox.
\<close>

theorem sandbox_empty_value_counterexample:
  "regex_exec DISABLE_SAME_ORIGIN_KEY ''https://app.box.com/office?disableAllowSameOrigin='' = Some (Some [])
   \<and> getOfficeEditorFrameElement
        (example_host\<lparr>location_href := ''https://app.box.com/office?disableAllowSameOrigin=''\<rparr>)
      = Inr \<lparr>tagName = ''iframe'', name = ''office-editor'', className = ''office-editor-frame'',
             attributes =
               [''allowfullscreen'' \<mapsto> ''true'',
                ''allow'' \<mapsto> ''microphone'',
                ''src'' \<mapsto> ''https://excel.officeapps.live.com/x/_layouts/xlviewerinternal.aspx'',
                ''sandbox'' \<mapsto> ''allow-scripts allow-same-origin allow-forms allow-popups allow-top-navigation allow-popups-to-escape-sandbox allow-downloads'']\<rparr>
   \<and> sandbox_tokens ''allow-scripts allow-same-origin allow-forms allow-popups allow-top-navigation allow-popups-to-escape-sandbox allow-downloads''
       \<noteq> base_permissions"
proof -
  have t: "sandbox_tokens ''allow-scripts allow-same-origin allow-forms allow-popups allow-top-navigation allow-popups-to-escape-sandbox allow-downloads''
       \<noteq> base_permissions"
  proof -
    have "''allow-same-origin'' \<notin> base_permissions"
      by (simp add: base_permissions_def)
    then have "insert ''allow-same-origin'' base_permissions \<noteq> base_permissions"
      by blast
    then show ?thesis unfolding sandbox_tokens_permissive .
  qed
  have r: "regex_exec DISABLE_SAME_ORIGIN_KEY ''https://app.box.com/office?disableAllowSameOrigin='' = Some (Some [])"
    by (simp add: DISABLE_SAME_ORIGIN_KEY_def)
  have g: "getParameterByName DISABLE_SAME_ORIGIN_KEY ''https://app.box.com/office?disableAllowSameOrigin='' = Inr (Some [])"
    unfolding getParameterByName_def r by simp
  have "getOfficeEditorFrameElement
        (example_host\<lparr>location_href := ''https://app.box.com/office?disableAllowSameOrigin=''\<rparr>)
      = Inr \<lparr>tagName = ''iframe'', name = ''office-editor'', className = ''office-editor-frame'',
             attributes =
               [''allowfullscreen'' \<mapsto> ''true'',
                ''allow'' \<mapsto> ''microphone'',
                ''src'' \<mapsto> ''https://excel.officeapps.live.com/x/_layouts/xlviewerinternal.aspx'',
                ''sandbox'' \<mapsto> ''allow-scripts allow-same-origin allow-forms allow-popups allow-top-navigation allow-popups-to-escape-sandbox allow-downloads'']\<rparr>"
    by (simp add: g getOfficeEditorFrameElement_def Let_def example_host_def createElement_def
        setAttribute_def EDITOR_IFRAME_NAME_def EDITOR_IFRAME_CLASS_def)
  with r t show ?thesis by simp
qed

section \<open>The example page\<close>

lemma example_host_simps:
  "serviceId example_host = ''4321''"
  "officeOnlineAppType example_host = ''Excel''"
  "fileExtension example_host = ''xlsx''"
  "titleWithNoFilename example_host = ''Box for Office Online''"
  "origin example_host = ''https://excel.officeapps.live.com''"
  "performance_now example_host k = 6000 * real k"
  "Date_getTime example_host k = 1700000000000 + int k"
  "JSON_parse example_host = example_parse"
  "JSON_stringify example_host = example_stringify"
  "dollar_t example_host fmt key a b = a @ '' on '' @ b"
  by (simp_all add: example_host_def)

lemma example_started_simps:
  "startTs example_started = Some 0"
  "perf_calls example_started = 2"
  "date_calls example_started = 0"
  "frame_holder example_started = Some [example_frame]"
  "listeners example_started = [(''message'', ReceiveEventFromOfficeOnline)]"
  "posted example_started = []"
  "parent_title example_started = ''Box''"
  "className example_frame = ''office-editor-frame''"
  by (simp_all add: example_started_def example_frame_def)

lemma example_frame_built: "getOfficeEditorFrameElement example_host = Inr example_frame"
proof -
  have "regex_exec DISABLE_SAME_ORIGIN_KEY (location_href example_host) = None"
    by (simp add: example_host_def DISABLE_SAME_ORIGIN_KEY_def)
  then have "getParameterByName DISABLE_SAME_ORIGIN_KEY (location_href example_host) = Inr None"
    by (simp add: getParameterByName_def)
  then show ?thesis
    by (simp add: getOfficeEditorFrameElement_def Let_def example_host_def example_frame_def
        createElement_def setAttribute_def EDITOR_IFRAME_NAME_def EDITOR_IFRAME_CLASS_def)
qed

lemma init_example: "init example_host example_world = Inr example_started"
  by (simp add: init_def drawIframe_def example_frame_built logLoadTime_def sendLog_def
      postTokenToIframe_def subscribeToEventsFromOfficeOnline_def dom_on_def Let_def
      example_world_def example_started_def IFRAME_LOAD_TIME_EVENT_def
      OFFICE_ONLINE_CATEGORY_NAME_def example_host_simps double_minus_examples)

lemma query_example_started: "query_editor_frame example_started = Some example_frame"
  by (simp add: query_editor_frame_def example_started_def example_frame_def EDITOR_IFRAME_CLASS_def)

section \<open>Load-time telemetry\<close>

lemma logLoadTime_undefined:
  "startTs w = None \<Longrightarrow> logLoadTime h eventName w = Inl (TypeError, w)"
  by (simp add: logLoadTime_def)

text \<open>
  C3. A call of \<^verbatim>\<open>logLoadTime\<close> on an initialised module reads the clock once and, with
  \<open>elapsed\<close> the double the program computes as the reading minus \<^verbatim>\<open>startTs\<close>, sends
  exactly one record when \<open>elapsed < 10000\<close> and exactly two when \<open>elapsed \<ge> 10000\<close>; the
  second is the first with \<^verbatim>\<open>_slow\<close> appended to its event name. Nothing else of the
  state changes. The examples after the theorem are a slow load of twelve seconds, and
  two loads at the threshold, where the exact difference of the readings is below 10000
  and the program's difference is 10000: two records, as the program sends.
\<close>

theorem logLoadTime_records:
  assumes "startTs w = Some start"
  shows "logLoadTime h eventName w =
     Inr (w\<lparr>perf_calls := Suc (perf_calls w),
            sent_logs := sent_logs w @
              (let elapsed = double_minus (performance_now h (perf_calls w)) start;
                   first = \<lparr>category = ''office_online'', event_type = ''perf'',
                            sent_params = \<lparr>event_name = eventName, load_time = elapsed,
                                            service_id = serviceId h,
                                            office_online_app_type = officeOnlineAppType h\<rparr>\<rparr>
               in if elapsed \<ge> 10000
                  then [first,
                        first\<lparr>sent_params := (sent_params first)\<lparr>event_name := eventName @ ''_slow''\<rparr>\<rparr>]
                  else [first])\<rparr>)"
  using assms
  by (simp add: logLoadTime_def sendLog_def Let_def OFFICE_ONLINE_CATEGORY_NAME_def)

theorem logLoadTime_records_witness:
  "startTs (example_world\<lparr>startTs := Some 0, perf_calls := 2\<rparr>) = Some 0
   \<and> logLoadTime example_host ''EDITOR_LOAD_TIME'' (example_world\<lparr>startTs := Some 0, perf_calls := 2\<rparr>)
     = Inr (example_world\<lparr>startTs := Some 0, perf_calls := 3,
              sent_logs :=
                [\<lparr>category = ''office_online'', event_type = ''perf'',
                  sent_params = \<lparr>event_name = ''EDITOR_LOAD_TIME'', load_time = 12000,
                                  service_id = ''4321'', office_online_app_type = ''Excel''\<rparr>\<rparr>,
                 \<lparr>category = ''office_online'', event_type = ''perf'',
                  sent_params = \<lparr>event_name = ''EDITOR_LOAD_TIME_slow'', load_time = 12000,
                                  service_id = ''4321'', office_online_app_type = ''Excel''\<rparr>\<rparr>]\<rparr>)
   \<and> startTs (example_world\<lparr>startTs := Some (5404319552844595 / 18014398509481984)\<rparr>)
       = Some (5404319552844595 / 18014398509481984)
   \<and> 2748861532812083 / 274877906944 - 5404319552844595 / 18014398509481984 < (10000::real)
   \<and> logLoadTime (example_host\<lparr>performance_now := \<lambda>k. 2748861532812083 / 274877906944\<rparr>)
         ''EDITOR_LOAD_TIME''
         (example_world\<lparr>startTs := Some (5404319552844595 / 18014398509481984)\<rparr>)
     = Inr (example_world\<lparr>startTs := Some (5404319552844595 / 18014398509481984),
              perf_calls := 1,
              sent_logs :=
                [\<lparr>category = ''office_online'', event_type = ''perf'',
                  sent_params = \<lparr>event_name = ''EDITOR_LOAD_TIME'', load_time = 10000,
                                  service_id = ''4321'', office_online_app_type = ''Excel''\<rparr>\<rparr>,
                 \<lparr>category = ''office_online'', event_type = ''perf'',
                  sent_params = \<lparr>event_name = ''EDITOR_LOAD_TIME_slow'', load_time = 10000,
                                  service_id = ''4321'', office_online_app_type = ''Excel''\<rparr>\<rparr>]\<rparr>)
   \<and> startTs (example_world\<lparr>startTs := Some (1 / 17592186044416)\<rparr>) = Some (1 / 17592186044416)
   \<and> 10000 - 1 / 17592186044416 < (10000::real)
   \<and> logLoadTime (example_host\<lparr>performance_now := \<lambda>k. 10000\<rparr>) ''IFRAME_LOAD_TIME''
         (example_world\<lparr>startTs := Some (1 / 17592186044416)\<rparr>)
     = Inr (example_world\<lparr>startTs := Some (1 / 17592186044416),
              perf_calls := 1,
              sent_logs :=
                [\<lparr>category = ''office_online'', event_type = ''perf'',
                  sent_params = \<lparr>event_name = ''IFRAME_LOAD_TIME'', load_time = 10000,
                                  service_id = ''4321'', office_online_app_type = ''Excel''\<rparr>\<rparr>,
                 \<lparr>category = ''office_online'', event_type = ''perf'',
                  sent_params = \<lparr>event_name = ''IFRAME_LOAD_TIME_slow'', load_time = 10000,
                                  service_id = ''4321'', office_online_app_type = ''Excel''\<rparr>\<rparr>]\<rparr>)"
proof -
  let ?w1 = "example_world\<lparr>startTs := Some 0, perf_calls := 2\<rparr>"
  let ?w2 = "example_world\<lparr>startTs := Some (5404319552844595 / 18014398509481984)\<rparr>"
  let ?h2 = "example_host\<lparr>performance_now := \<lambda>k. 2748861532812083 / 274877906944\<rparr>"
  let ?w3 = "example_world\<lparr>startTs := Some (1 / 17592186044416)\<rparr>"
  let ?h3 = "example_host\<lparr>performance_now := \<lambda>k. 10000\<rparr>"
  have s1: "startTs ?w1 = Some 0" by simp
  have s2: "startTs ?w2 = Some (5404319552844595 / 18014398509481984)" by simp
  have s3: "startTs ?w3 = Some (1 / 17592186044416)" by simp
  have hs: "serviceId ?h2 = ''4321''" "officeOnlineAppType ?h2 = ''Excel''"
    "serviceId ?h3 = ''4321''" "officeOnlineAppType ?h3 = ''Excel''"
    by (simp_all add: example_host_def)
  have c1: "logLoadTime example_host ''EDITOR_LOAD_TIME'' ?w1
     = Inr (example_world\<lparr>startTs := Some 0, perf_calls := 3,
              sent_logs :=
                [\<lparr>category = ''office_online'', event_type = ''perf'',
                  sent_params = \<lparr>event_name = ''EDITOR_LOAD_TIME'', load_time = 12000,
                                  service_id = ''4321'', office_online_app_type = ''Excel''\<rparr>\<rparr>,
                 \<lparr>category = ''office_online'', event_type = ''perf'',
                  sent_params = \<lparr>event_name = ''EDITOR_LOAD_TIME_slow'', load_time = 12000,
                                  service_id = ''4321'', office_online_app_type = ''Excel''\<rparr>\<rparr>]\<rparr>)"
    using logLoadTime_records [OF s1, of example_host "''EDITOR_LOAD_TIME''"]
    by (simp add: example_host_simps example_world_def double_minus_examples Let_def)
  have c2: "logLoadTime ?h2 ''EDITOR_LOAD_TIME'' ?w2
     = Inr (example_world\<lparr>startTs := Some (5404319552844595 / 18014398509481984),
              perf_calls := 1,
              sent_logs :=
                [\<lparr>category = ''office_online'', event_type = ''perf'',
                  sent_params = \<lparr>event_name = ''EDITOR_LOAD_TIME'', load_time = 10000,
                                  service_id = ''4321'', office_online_app_type = ''Excel''\<rparr>\<rparr>,
                 \<lparr>category = ''office_online'', event_type = ''perf'',
                  sent_params = \<lparr>event_name = ''EDITOR_LOAD_TIME_slow'', load_time = 10000,
                                  service_id = ''4321'', office_online_app_type = ''Excel''\<rparr>\<rparr>]\<rparr>)"
    using logLoadTime_records [OF s2, of ?h2 "''EDITOR_LOAD_TIME''"]
    by (simp add: hs example_world_def double_minus_examples Let_def)
  have c3: "logLoadTime ?h3 ''IFRAME_LOAD_TIME'' ?w3
     = Inr (example_world\<lparr>startTs := Some (1 / 17592186044416),
              perf_calls := 1,
              sent_logs :=
                [\<lparr>category = ''office_online'', event_type = ''perf'',
                  sent_params = \<lparr>event_name = ''IFRAME_LOAD_TIME'', load_time = 10000,
                                  service_id = ''4321'', office_online_app_type = ''Excel''\<rparr>\<rparr>,
                 \<lparr>category = ''office_online'', event_type = ''perf'',
                  sent_params = \<lparr>event_name = ''IFRAME_LOAD_TIME_slow'', load_time = 10000,
                                  service_id = ''4321'', office_online_app_type = ''Excel''\<rparr>\<rparr>]\<rparr>)"
    using logLoadTime_records [OF s3, of ?h3 "''IFRAME_LOAD_TIME''"]
    by (simp add: hs example_world_def double_minus_examples Let_def)
  from s1 c1 s2 c2 s3 c3 exact_differences_below_threshold show ?thesis
    by (intro conjI)
qed

lemma logLoadTime_cases:
  "logLoadTime h n w = Inl (TypeError, w)
   \<or> (\<exists>c. logLoadTime h n w = Inr (w\<lparr>perf_calls := Suc (perf_calls w), sent_logs := sent_logs w @ c\<rparr>))"
  by (cases "startTs w") (auto simp: logLoadTime_def sendLog_def Let_def)

lemma publishMessage_cases:
  "publishMessage h m w = Inl (TypeError, w)
   \<or> publishMessage h m w = Inr (w\<lparr>posted := posted w @ [(JSON_stringify h m, origin h)]\<rparr>)"
  by (auto simp: publishMessage_def Let_def split: option.splits)

lemma publishReadyMessage_cases:
  "publishReadyMessage h w = Inl (TypeError, w\<lparr>date_calls := Suc (date_calls w)\<rparr>)
   \<or> (\<exists>m. publishReadyMessage h w =
          Inr (w\<lparr>date_calls := Suc (date_calls w), posted := posted w @ [(m, origin h)]\<rparr>))"
  using publishMessage_cases [of h _ "w\<lparr>date_calls := Suc (date_calls w)\<rparr>"]
  by (auto simp: publishReadyMessage_def getCurrentTimestamp_def)

lemma app_loaded_frame:
  "\<exists>a b c d. world_after (case logLoadTime h n w of Inl x \<Rightarrow> Inl x | Inr w1 \<Rightarrow> publishReadyMessage h w1)
      = w\<lparr>perf_calls := a, date_calls := b, sent_logs := c, posted := d\<rparr>"
proof -
  consider "logLoadTime h n w = Inl (TypeError, w)"
    | c where "logLoadTime h n w = Inr (w\<lparr>perf_calls := Suc (perf_calls w), sent_logs := sent_logs w @ c\<rparr>)"
    using logLoadTime_cases by blast
  then show ?thesis
  proof cases
    case 1
    have "world_after (case logLoadTime h n w of Inl x \<Rightarrow> Inl x | Inr w1 \<Rightarrow> publishReadyMessage h w1)
        = w\<lparr>perf_calls := perf_calls w, date_calls := date_calls w,
            sent_logs := sent_logs w, posted := posted w\<rparr>"
      by (simp add: 1)
    then show ?thesis by blast
  next
    case 2
    let ?w1 = "w\<lparr>perf_calls := Suc (perf_calls w), sent_logs := sent_logs w @ c\<rparr>"
    from publishReadyMessage_cases [of h ?w1] show ?thesis
    proof
      assume e: "publishReadyMessage h ?w1 = Inl (TypeError, ?w1\<lparr>date_calls := Suc (date_calls ?w1)\<rparr>)"
      have "world_after (case logLoadTime h n w of Inl x \<Rightarrow> Inl x | Inr w1 \<Rightarrow> publishReadyMessage h w1)
          = w\<lparr>perf_calls := Suc (perf_calls w), date_calls := Suc (date_calls w),
              sent_logs := sent_logs w @ c, posted := posted w\<rparr>"
        by (simp add: 2 e)
      then show ?thesis by blast
    next
      assume "\<exists>m. publishReadyMessage h ?w1 =
          Inr (?w1\<lparr>date_calls := Suc (date_calls ?w1), posted := posted ?w1 @ [(m, origin h)]\<rparr>)"
      then obtain m where e: "publishReadyMessage h ?w1 =
          Inr (?w1\<lparr>date_calls := Suc (date_calls ?w1), posted := posted ?w1 @ [(m, origin h)]\<rparr>)" ..
      have "world_after (case logLoadTime h n w of Inl x \<Rightarrow> Inl x | Inr w1 \<Rightarrow> publishReadyMessage h w1)
          = w\<lparr>perf_calls := Suc (perf_calls w), date_calls := Suc (date_calls w),
              sent_logs := sent_logs w @ c, posted := posted w @ [(m, origin h)]\<rparr>"
        by (simp add: 2 e)
      then show ?thesis by blast
    qed
  qed
qed

section \<open>Dispatch of inbound messages\<close>

text \<open>
  C2. For a payload that parses to a JSON object: with \<^verbatim>\<open>MessageId\<close>
  \<^verbatim>\<open>App_LoadingStatus\<close> the handler does what \<^verbatim>\<open>logLoadTime(EDITOR_LOAD_TIME_EVENT)\<close> followed
  by \<^verbatim>\<open>publishReadyMessage()\<close> does, and only the clock counters, the telemetry log and
  the posted messages can differ afterwards; with \<^verbatim>\<open>File_Rename\<close> it does the title
  update and nothing else: it writes to the parent document's title what \<^verbatim>\<open>$t\<close> gives
  for \<^verbatim>\<open>Values.NewName + '.' + fileExtension\<close> and the configured title, and when
  \<^verbatim>\<open>Values\<close> is missing or \<^verbatim>\<open>null\<close>, or \<^verbatim>\<open>NewName\<close> has no string conversion, it throws
  \<^verbatim>\<open>TypeError\<close> with the state unchanged; with any other \<^verbatim>\<open>MessageId\<close>, or none, it
  returns with the state unchanged.
\<close>

theorem dispatch_by_MessageId:
  assumes "originalEvent_data ev = Some payload" and "payload \<noteq> []"
    and "JSON_parse h payload = Some (JObj kvs)"
  shows "(map_of kvs ''MessageId'' = Some (JStr ''App_LoadingStatus'') \<longrightarrow>
            receiveEventFromOfficeOnline h ev w =
              (case logLoadTime h ''EDITOR_LOAD_TIME'' w of
                 Inl x \<Rightarrow> Inl x
               | Inr w1 \<Rightarrow> publishReadyMessage h w1)
            \<and> (\<exists>a b c d. world_after (receiveEventFromOfficeOnline h ev w) =
                  w\<lparr>perf_calls := a, date_calls := b, sent_logs := c, posted := d\<rparr>))
       \<and> (map_of kvs ''MessageId'' = Some (JStr ''File_Rename'') \<longrightarrow>
            receiveEventFromOfficeOnline h ev w =
              (case map_of kvs ''Values'' of
                 None \<Rightarrow> Inl (TypeError, w)
               | Some msgValue \<Rightarrow>
                   if msgValue = JNull then Inl (TypeError, w)
                   else
                     (case ToString_operand (Number_toString h)
                             (get_property msgValue ''NewName'') of
                        Inl e \<Rightarrow> Inl (e, w)
                      | Inr newName \<Rightarrow>
                          Inr (w\<lparr>parent_title :=
                                   dollar_t h ''%1 on %2''
                                     ''office_online_window_title_with_file_name''
                                     (newName @ ''.'' @ fileExtension h)
                                     (titleWithNoFilename h)\<rparr>))))
       \<and> (map_of kvs ''MessageId'' \<noteq> Some (JStr ''App_LoadingStatus'')
          \<and> map_of kvs ''MessageId'' \<noteq> Some (JStr ''File_Rename'') \<longrightarrow>
            receiveEventFromOfficeOnline h ev w = Inr w)"
proof -
  have app: "map_of kvs ''MessageId'' = Some (JStr ''App_LoadingStatus'') \<Longrightarrow>
      receiveEventFromOfficeOnline h ev w =
        (case logLoadTime h ''EDITOR_LOAD_TIME'' w of
           Inl x \<Rightarrow> Inl x
         | Inr w1 \<Rightarrow> publishReadyMessage h w1)"
    using assms
    by (simp add: receiveEventFromOfficeOnline_def APP_LOADING_STATUS_MESSAGE_ID_def
        FILE_RENAME_MESSAGE_ID_def EDITOR_LOAD_TIME_EVENT_def split: sum.splits)
  have rename: "map_of kvs ''MessageId'' = Some (JStr ''File_Rename'') \<Longrightarrow>
      receiveEventFromOfficeOnline h ev w =
        (case map_of kvs ''Values'' of
           None \<Rightarrow> Inl (TypeError, w)
         | Some msgValue \<Rightarrow>
             if msgValue = JNull then Inl (TypeError, w)
             else
               (case ToString_operand (Number_toString h)
                       (get_property msgValue ''NewName'') of
                  Inl e \<Rightarrow> Inl (e, w)
                | Inr newName \<Rightarrow>
                    Inr (w\<lparr>parent_title :=
                             dollar_t h ''%1 on %2''
                               ''office_online_window_title_with_file_name''
                               (newName @ ''.'' @ fileExtension h)
                               (titleWithNoFilename h)\<rparr>)))"
    using assms
    by (simp add: receiveEventFromOfficeOnline_def APP_LOADING_STATUS_MESSAGE_ID_def
        FILE_RENAME_MESSAGE_ID_def Let_def split: option.splits sum.splits)
  have other: "map_of kvs ''MessageId'' \<noteq> Some (JStr ''App_LoadingStatus'') \<Longrightarrow>
      map_of kvs ''MessageId'' \<noteq> Some (JStr ''File_Rename'') \<Longrightarrow>
      receiveEventFromOfficeOnline h ev w = Inr w"
    using assms
    by (simp add: receiveEventFromOfficeOnline_def APP_LOADING_STATUS_MESSAGE_ID_def
        FILE_RENAME_MESSAGE_ID_def)
  show ?thesis
    using app rename other app_loaded_frame [of h "''EDITOR_LOAD_TIME''" w]
    by (intro conjI impI) simp_all
qed

theorem dispatch_by_MessageId_witness:
  "originalEvent_data unknown_event = Some ''{\"MessageId\":\"App_Unknown\"}''
   \<and> ''{\"MessageId\":\"App_Unknown\"}'' \<noteq> []
   \<and> JSON_parse example_host ''{\"MessageId\":\"App_Unknown\"}''
       = Some (JObj [(''MessageId'', JStr ''App_Unknown'')])
   \<and> receiveEventFromOfficeOnline example_host unknown_event example_started = Inr example_started
   \<and> originalEvent_data app_loaded_event = Some ''{\"MessageId\":\"App_LoadingStatus\"}''
   \<and> JSON_parse example_host ''{\"MessageId\":\"App_LoadingStatus\"}''
       = Some (JObj [(''MessageId'', JStr ''App_LoadingStatus'')])
   \<and> receiveEventFromOfficeOnline example_host app_loaded_event example_started
       = Inr (example_started
               \<lparr>perf_calls := 3, date_calls := 1,
                sent_logs := sent_logs example_started @
                  [\<lparr>category = ''office_online'', event_type = ''perf'',
                    sent_params = \<lparr>event_name = ''EDITOR_LOAD_TIME'', load_time = 12000,
                                    service_id = ''4321'', office_online_app_type = ''Excel''\<rparr>\<rparr>,
                   \<lparr>category = ''office_online'', event_type = ''perf'',
                    sent_params = \<lparr>event_name = ''EDITOR_LOAD_TIME_slow'', load_time = 12000,
                                    service_id = ''4321'', office_online_app_type = ''Excel''\<rparr>\<rparr>],
                posted :=
                  [(''{\"MessageId\":\"Host_PostmessageReady\",\"SendTime\":1700000000000,\"Values\":{}}'',
                    ''https://excel.officeapps.live.com'')]\<rparr>)
   \<and> originalEvent_data file_rename_event
       = Some ''{\"MessageId\":\"File_Rename\",\"Values\":{\"NewName\":\"Report\"}}''
   \<and> JSON_parse example_host ''{\"MessageId\":\"File_Rename\",\"Values\":{\"NewName\":\"Report\"}}''
       = Some (JObj [(''MessageId'', JStr ''File_Rename''),
                     (''Values'', JObj [(''NewName'', JStr ''Report'')])])
   \<and> receiveEventFromOfficeOnline example_host file_rename_event example_started
       = Inr (example_started\<lparr>parent_title := ''Report.xlsx on Box for Office Online''\<rparr>)"
proof -
  have r1: "originalEvent_data file_rename_event
       = Some ''{\"MessageId\":\"File_Rename\",\"Values\":{\"NewName\":\"Report\"}}''"
    by (simp add: file_rename_event_def)
  have r2: "''{\"MessageId\":\"File_Rename\",\"Values\":{\"NewName\":\"Report\"}}'' \<noteq> []" by simp
  have r3: "JSON_parse example_host ''{\"MessageId\":\"File_Rename\",\"Values\":{\"NewName\":\"Report\"}}''
       = Some (JObj [(''MessageId'', JStr ''File_Rename''),
                     (''Values'', JObj [(''NewName'', JStr ''Report'')])])"
    by (simp add: example_host_simps example_parse_def)
  have r: "receiveEventFromOfficeOnline example_host file_rename_event example_started
       = Inr (example_started\<lparr>parent_title := ''Report.xlsx on Box for Office Online''\<rparr>)"
    using dispatch_by_MessageId [OF r1 r2 r3, of example_started]
    by (simp add: example_host_simps)
  have u1: "originalEvent_data unknown_event = Some ''{\"MessageId\":\"App_Unknown\"}''"
    by (simp add: unknown_event_def)
  have u2: "''{\"MessageId\":\"App_Unknown\"}'' \<noteq> []" by simp
  have u3: "JSON_parse example_host ''{\"MessageId\":\"App_Unknown\"}''
       = Some (JObj [(''MessageId'', JStr ''App_Unknown'')])"
    by (simp add: example_host_simps example_parse_def)
  have u: "receiveEventFromOfficeOnline example_host unknown_event example_started = Inr example_started"
    using dispatch_by_MessageId [OF u1 u2 u3, of example_started] by simp
  have a1: "originalEvent_data app_loaded_event = Some ''{\"MessageId\":\"App_LoadingStatus\"}''"
    by (simp add: app_loaded_event_def)
  have a2: "''{\"MessageId\":\"App_LoadingStatus\"}'' \<noteq> []" by simp
  have a3: "JSON_parse example_host ''{\"MessageId\":\"App_LoadingStatus\"}''
       = Some (JObj [(''MessageId'', JStr ''App_LoadingStatus'')])"
    by (simp add: example_host_simps example_parse_def)
  have l: "logLoadTime example_host ''EDITOR_LOAD_TIME'' example_started
      = Inr (example_started
               \<lparr>perf_calls := 3,
                sent_logs := sent_logs example_started @
                  [\<lparr>category = ''office_online'', event_type = ''perf'',
                    sent_params = \<lparr>event_name = ''EDITOR_LOAD_TIME'', load_time = 12000,
                                    service_id = ''4321'', office_online_app_type = ''Excel''\<rparr>\<rparr>,
                   \<lparr>category = ''office_online'', event_type = ''perf'',
                    sent_params = \<lparr>event_name = ''EDITOR_LOAD_TIME_slow'', load_time = 12000,
                                    service_id = ''4321'', office_online_app_type = ''Excel''\<rparr>\<rparr>]\<rparr>)"
    by (simp add: logLoadTime_def sendLog_def Let_def example_host_simps example_started_simps
        double_minus_examples OFFICE_ONLINE_CATEGORY_NAME_def)
  have a: "receiveEventFromOfficeOnline example_host app_loaded_event example_started
      = (case logLoadTime example_host ''EDITOR_LOAD_TIME'' example_started of
           Inl x \<Rightarrow> Inl x
         | Inr w1 \<Rightarrow> publishReadyMessage example_host w1)"
    using dispatch_by_MessageId [OF a1 a2 a3, of example_started] by simp
  have "receiveEventFromOfficeOnline example_host app_loaded_event example_started
       = Inr (example_started
               \<lparr>perf_calls := 3, date_calls := 1,
                sent_logs := sent_logs example_started @
                  [\<lparr>category = ''office_online'', event_type = ''perf'',
                    sent_params = \<lparr>event_name = ''EDITOR_LOAD_TIME'', load_time = 12000,
                                    service_id = ''4321'', office_online_app_type = ''Excel''\<rparr>\<rparr>,
                   \<lparr>category = ''office_online'', event_type = ''perf'',
                    sent_params = \<lparr>event_name = ''EDITOR_LOAD_TIME_slow'', load_time = 12000,
                                    service_id = ''4321'', office_online_app_type = ''Excel''\<rparr>\<rparr>],
                posted :=
                  [(''{\"MessageId\":\"Host_PostmessageReady\",\"SendTime\":1700000000000,\"Values\":{}}'',
                    ''https://excel.officeapps.live.com'')]\<rparr>)"
    unfolding a l
    by (simp add: publishReadyMessage_def getCurrentTimestamp_def publishMessage_def Let_def
        query_editor_frame_def example_host_simps example_started_simps example_stringify_def
        POST_MESSAGE_READY_MESSAGE_ID_def EDITOR_IFRAME_CLASS_def)
  with u1 u2 u3 u a1 a3 r1 r3 r show ?thesis by simp
qed

text \<open>
  C4. A payload that is absent or empty makes the handler return at once with the state
  unchanged. Every other payload is handed to \<^verbatim>\<open>JSON.parse\<close>, and when that rejects it
  the handler throws \<^verbatim>\<open>SyntaxError\<close>; nothing catches it and the state is unchanged.
\<close>

theorem payload_absent_or_malformed:
  "(originalEvent_data ev = None \<or> originalEvent_data ev = Some [] \<longrightarrow>
      receiveEventFromOfficeOnline h ev w = Inr w)
   \<and> (\<forall>payload. originalEvent_data ev = Some payload \<and> payload \<noteq> []
          \<and> JSON_parse h payload = None \<longrightarrow>
        receiveEventFromOfficeOnline h ev w = Inl (SyntaxError, w))"
  by (auto simp: receiveEventFromOfficeOnline_def)

theorem payload_absent_or_malformed_witness:
  "originalEvent_data \<lparr>originalEvent_data = None\<rparr> = None
   \<and> receiveEventFromOfficeOnline example_host \<lparr>originalEvent_data = None\<rparr> example_started
       = Inr example_started
   \<and> originalEvent_data \<lparr>originalEvent_data = Some []\<rparr> = Some []
   \<and> receiveEventFromOfficeOnline example_host \<lparr>originalEvent_data = Some []\<rparr> example_started
       = Inr example_started
   \<and> originalEvent_data malformed_event = Some ''not json''
   \<and> ''not json'' \<noteq> []
   \<and> JSON_parse example_host ''not json'' = None
   \<and> receiveEventFromOfficeOnline example_host malformed_event example_started
       = Inl (SyntaxError, example_started)"
proof -
  have m1: "originalEvent_data malformed_event = Some ''not json''"
    by (simp add: malformed_event_def)
  have m2: "''not json'' \<noteq> []" by simp
  have m3: "JSON_parse example_host ''not json'' = None"
    by (simp add: example_host_simps example_parse_def)
  from payload_absent_or_malformed [of malformed_event example_host example_started] m1 m2 m3
  have "receiveEventFromOfficeOnline example_host malformed_event example_started
       = Inl (SyntaxError, example_started)" by blast
  moreover
  from payload_absent_or_malformed [of "\<lparr>originalEvent_data = None\<rparr>" example_host example_started]
  have "receiveEventFromOfficeOnline example_host \<lparr>originalEvent_data = None\<rparr> example_started
       = Inr example_started" by simp
  moreover
  from payload_absent_or_malformed [of "\<lparr>originalEvent_data = Some []\<rparr>" example_host example_started]
  have "receiveEventFromOfficeOnline example_host \<lparr>originalEvent_data = Some []\<rparr> example_started
       = Inr example_started" by simp
  ultimately show ?thesis using m1 m2 m3 by simp
qed

text \<open>
  C7. For a \<^verbatim>\<open>File_Rename\<close> message whose \<^verbatim>\<open>Values\<close> carries the string \<^verbatim>\<open>NewName\<close>, the
  handler forms \<^verbatim>\<open>NewName + '.' + fileExtension\<close>, hands it with the configured
  \<^verbatim>\<open>titleWithNoFilename\<close> to \<^verbatim>\<open>$t\<close> under the template \<^verbatim>\<open>%1 on %2\<close>, and writes the
  result to the title of the parent document; nothing else changes. With \<^verbatim>\<open>NewName\<close>
  \<^verbatim>\<open>Report\<close> and extension \<^verbatim>\<open>xlsx\<close> the name is \<^verbatim>\<open>Report.xlsx\<close>.
\<close>

theorem file_rename_sets_title:
  assumes "originalEvent_data ev = Some payload" and "payload \<noteq> []"
    and "JSON_parse h payload = Some (JObj kvs)"
    and "map_of kvs ''MessageId'' = Some (JStr ''File_Rename'')"
    and "map_of kvs ''Values'' = Some msgValue"
    and "get_property msgValue ''NewName'' = Some (JStr newName)"
  shows "receiveEventFromOfficeOnline h ev w =
     Inr (w\<lparr>parent_title :=
              dollar_t h ''%1 on %2'' ''office_online_window_title_with_file_name''
                (newName @ ''.'' @ fileExtension h) (titleWithNoFilename h)\<rparr>)"
proof -
  from assms(6) have "msgValue \<noteq> JNull" by auto
  with assms show ?thesis
    by (simp add: receiveEventFromOfficeOnline_def APP_LOADING_STATUS_MESSAGE_ID_def
        FILE_RENAME_MESSAGE_ID_def Let_def)
qed

theorem file_rename_sets_title_witness:
  "originalEvent_data file_rename_event
     = Some ''{\"MessageId\":\"File_Rename\",\"Values\":{\"NewName\":\"Report\"}}''
   \<and> ''{\"MessageId\":\"File_Rename\",\"Values\":{\"NewName\":\"Report\"}}'' \<noteq> []
   \<and> JSON_parse example_host ''{\"MessageId\":\"File_Rename\",\"Values\":{\"NewName\":\"Report\"}}''
       = Some (JObj [(''MessageId'', JStr ''File_Rename''),
                     (''Values'', JObj [(''NewName'', JStr ''Report'')])])
   \<and> map_of [(''MessageId'', JStr ''File_Rename''),
              (''Values'', JObj [(''NewName'', JStr ''Report'')])] ''MessageId''
       = Some (JStr ''File_Rename'')
   \<and> map_of [(''MessageId'', JStr ''File_Rename''),
              (''Values'', JObj [(''NewName'', JStr ''Report'')])] ''Values''
       = Some (JObj [(''NewName'', JStr ''Report'')])
   \<and> get_property (JObj [(''NewName'', JStr ''Report'')]) ''NewName'' = Some (JStr ''Report'')
   \<and> fileExtension example_host = ''xlsx''
   \<and> receiveEventFromOfficeOnline example_host file_rename_event example_started
       = Inr (example_started\<lparr>parent_title := ''Report.xlsx on Box for Office Online''\<rparr>)"
proof -
  have a1: "originalEvent_data file_rename_event
     = Some ''{\"MessageId\":\"File_Rename\",\"Values\":{\"NewName\":\"Report\"}}''"
    by (simp add: file_rename_event_def)
  have a2: "''{\"MessageId\":\"File_Rename\",\"Values\":{\"NewName\":\"Report\"}}'' \<noteq> []" by simp
  have a3: "JSON_parse example_host ''{\"MessageId\":\"File_Rename\",\"Values\":{\"NewName\":\"Report\"}}''
       = Some (JObj [(''MessageId'', JStr ''File_Rename''),
                     (''Values'', JObj [(''NewName'', JStr ''Report'')])])"
    by (simp add: example_host_simps example_parse_def)
  have a4: "map_of [(''MessageId'', JStr ''File_Rename''),
              (''Values'', JObj [(''NewName'', JStr ''Report'')])] ''MessageId''
       = Some (JStr ''File_Rename'')" by simp
  have a5: "map_of [(''MessageId'', JStr ''File_Rename''),
              (''Values'', JObj [(''NewName'', JStr ''Report'')])] ''Values''
       = Some (JObj [(''NewName'', JStr ''Report'')])" by simp
  have a6: "get_property (JObj [(''NewName'', JStr ''Report'')]) ''NewName'' = Some (JStr ''Report'')"
    by simp
  from file_rename_sets_title [OF a1 a2 a3 a4 a5 a6, of example_started]
  have "receiveEventFromOfficeOnline example_host file_rename_event example_started
       = Inr (example_started\<lparr>parent_title := ''Report.xlsx on Box for Office Online''\<rparr>)"
    by (simp add: example_host_simps)
  with a1 a2 a3 a4 a5 a6 show ?thesis by (simp add: example_host_simps)
qed

text \<open>
  C10. A \<^verbatim>\<open>File_Rename\<close> message with no \<^verbatim>\<open>Values\<close> property is well-formed JSON, and
  the handler throws \<^verbatim>\<open>TypeError\<close> on it instead of ignoring it: \<^verbatim>\<open>msgValue.NewName\<close> is
  read with \<^verbatim>\<open>msgValue\<close> undefined.
\<close>

theorem file_rename_without_values_throws:
  assumes "originalEvent_data ev = Some payload" and "payload \<noteq> []"
    and "JSON_parse h payload = Some (JObj kvs)"
    and "map_of kvs ''MessageId'' = Some (JStr ''File_Rename'')"
    and "map_of kvs ''Values'' = None"
  shows "receiveEventFromOfficeOnline h ev w = Inl (TypeError, w)"
  using assms
  by (simp add: receiveEventFromOfficeOnline_def APP_LOADING_STATUS_MESSAGE_ID_def
      FILE_RENAME_MESSAGE_ID_def)

theorem file_rename_without_values_throws_witness:
  "originalEvent_data file_rename_bare_event = Some ''{\"MessageId\":\"File_Rename\"}''
   \<and> ''{\"MessageId\":\"File_Rename\"}'' \<noteq> []
   \<and> JSON_parse example_host ''{\"MessageId\":\"File_Rename\"}''
       = Some (JObj [(''MessageId'', JStr ''File_Rename'')])
   \<and> map_of [(''MessageId'', JStr ''File_Rename'')] ''MessageId'' = Some (JStr ''File_Rename'')
   \<and> map_of [(''MessageId'', JStr ''File_Rename'')] ''Values'' = None
   \<and> receiveEventFromOfficeOnline example_host file_rename_bare_event example_started
       = Inl (TypeError, example_started)"
proof -
  have a1: "originalEvent_data file_rename_bare_event = Some ''{\"MessageId\":\"File_Rename\"}''"
    by (simp add: file_rename_bare_event_def)
  have a2: "''{\"MessageId\":\"File_Rename\"}'' \<noteq> []" by simp
  have a3: "JSON_parse example_host ''{\"MessageId\":\"File_Rename\"}''
       = Some (JObj [(''MessageId'', JStr ''File_Rename'')])"
    by (simp add: example_host_simps example_parse_def)
  have a4: "map_of [(''MessageId'', JStr ''File_Rename'')] ''MessageId'' = Some (JStr ''File_Rename'')"
    by simp
  have a5: "map_of [(''MessageId'', JStr ''File_Rename'')] ''Values'' = None" by simp
  from file_rename_without_values_throws [OF a1 a2 a3 a4 a5, of example_started] a1 a2 a3 a4 a5
  show ?thesis by simp
qed

section \<open>Effects of the handler and of the lifecycle calls\<close>

lemma logLoadTime_Some:
  "startTs w = Some start \<Longrightarrow>
     logLoadTime h n w =
       Inr (w\<lparr>perf_calls := Suc (perf_calls w),
              sent_logs := sent_logs w @ load_records h n (double_minus (performance_now h (perf_calls w)) start)\<rparr>)"
  by (simp add: logLoadTime_def sendLog_def Let_def load_records_def OFFICE_ONLINE_CATEGORY_NAME_def)

lemma load_records_entry:
  "e \<in> set (load_records h n x) \<Longrightarrow>
     load_time (sent_params e) = x
     \<and> (event_name (sent_params e) = n \<or> event_name (sent_params e) = n @ ''_slow'')"
  by (auto simp: load_records_def Let_def split: if_splits)

lemma query_editor_frame_date_calls [simp]:
  "query_editor_frame (w\<lparr>date_calls := d\<rparr>) = query_editor_frame w"
  by (simp add: query_editor_frame_def)

lemma publishReadyMessage_eq:
  "publishReadyMessage h w =
     (if startTs w = None \<or> query_editor_frame w = None
      then Inl (TypeError, w\<lparr>date_calls := Suc (date_calls w)\<rparr>)
      else Inr (w\<lparr>date_calls := Suc (date_calls w),
                  posted := posted w @
                    [(JSON_stringify h
                        (JObj [(''MessageId'', JStr ''Host_PostmessageReady''),
                               (''SendTime'', JNum (of_int (Date_getTime h (date_calls w)))),
                               (''Values'', JObj [])]),
                      origin h)]\<rparr>))"
  by (auto simp: publishReadyMessage_def getCurrentTimestamp_def publishMessage_def Let_def
        POST_MESSAGE_READY_MESSAGE_ID_def split: option.splits)

lemma receive_world_after:
  "world_after (receiveEventFromOfficeOnline h ev w) = w
   \<or> (\<exists>t. world_after (receiveEventFromOfficeOnline h ev w) = w\<lparr>parent_title := t\<rparr>)
   \<or> world_after (receiveEventFromOfficeOnline h ev w) =
        world_after (case logLoadTime h ''EDITOR_LOAD_TIME'' w of
                       Inl x \<Rightarrow> Inl x
                     | Inr w1 \<Rightarrow> publishReadyMessage h w1)"
  by (auto simp: receiveEventFromOfficeOnline_def APP_LOADING_STATUS_MESSAGE_ID_def
        FILE_RENAME_MESSAGE_ID_def EDITOR_LOAD_TIME_EVENT_def Let_def
        split: option.splits sum.splits)


lemma app_loaded_effect:
  "world_after (case logLoadTime h n w of Inl x \<Rightarrow> Inl x | Inr w1 \<Rightarrow> publishReadyMessage h w1) = w
   \<or> (\<exists>start ps. startTs w = Some start \<and> list_all (ready_post h) ps
         \<and> world_after (case logLoadTime h n w of Inl x \<Rightarrow> Inl x | Inr w1 \<Rightarrow> publishReadyMessage h w1)
             = w\<lparr>perf_calls := Suc (perf_calls w),
                 date_calls := Suc (date_calls w),
                 sent_logs := sent_logs w @ load_records h n (double_minus (performance_now h (perf_calls w)) start),
                 posted := posted w @ ps\<rparr>)"
proof (cases "startTs w")
  case None
  then show ?thesis by (simp add: logLoadTime_undefined)
next
  case (Some start)
  let ?w1 = "w\<lparr>perf_calls := Suc (perf_calls w),
               sent_logs := sent_logs w @ load_records h n (double_minus (performance_now h (perf_calls w)) start)\<rparr>"
  let ?m = "(JSON_stringify h
               (JObj [(''MessageId'', JStr ''Host_PostmessageReady''),
                      (''SendTime'', JNum (of_int (Date_getTime h (date_calls w)))),
                      (''Values'', JObj [])]),
             origin h)"
  have q: "query_editor_frame ?w1 = query_editor_frame w"
    by (simp add: query_editor_frame_def)
  have r: "ready_post h ?m" unfolding ready_post_def by blast
  show ?thesis
  proof (cases "query_editor_frame w")
    case None
    have "world_after (case logLoadTime h n w of Inl x \<Rightarrow> Inl x | Inr w1 \<Rightarrow> publishReadyMessage h w1)
        = w\<lparr>perf_calls := Suc (perf_calls w),
            date_calls := Suc (date_calls w),
            sent_logs := sent_logs w @ load_records h n (double_minus (performance_now h (perf_calls w)) start),
            posted := posted w @ []\<rparr>"
      by (simp add: logLoadTime_Some [OF Some] publishReadyMessage_eq q None)
    moreover have "list_all (ready_post h) []" by simp
    ultimately show ?thesis using Some by blast
  next
    case (Some f)
    have "world_after (case logLoadTime h n w of Inl x \<Rightarrow> Inl x | Inr w1 \<Rightarrow> publishReadyMessage h w1)
        = w\<lparr>perf_calls := Suc (perf_calls w),
            date_calls := Suc (date_calls w),
            sent_logs := sent_logs w @ load_records h n (double_minus (performance_now h (perf_calls w)) start),
            posted := posted w @ [?m]\<rparr>"
      by (simp add: logLoadTime_Some [OF \<open>startTs w = Some start\<close>] publishReadyMessage_eq q Some
          \<open>startTs w = Some start\<close>)
    moreover have "list_all (ready_post h) [?m]" using r by simp
    ultimately show ?thesis using \<open>startTs w = Some start\<close> by blast
  qed
qed

lemma receive_effect:
  "(\<exists>t. world_after (receiveEventFromOfficeOnline h ev w) = w\<lparr>parent_title := t\<rparr>)
   \<or> (\<exists>start ps. startTs w = Some start \<and> list_all (ready_post h) ps
         \<and> world_after (receiveEventFromOfficeOnline h ev w)
             = w\<lparr>perf_calls := Suc (perf_calls w),
                 date_calls := Suc (date_calls w),
                 sent_logs := sent_logs w @
                   load_records h ''EDITOR_LOAD_TIME'' (double_minus (performance_now h (perf_calls w)) start),
                 posted := posted w @ ps\<rparr>)"
proof -
  have same: "world_after (receiveEventFromOfficeOnline h ev w) = w \<Longrightarrow>
      \<exists>t. world_after (receiveEventFromOfficeOnline h ev w) = w\<lparr>parent_title := t\<rparr>"
  proof -
    assume "world_after (receiveEventFromOfficeOnline h ev w) = w"
    then have "world_after (receiveEventFromOfficeOnline h ev w) = w\<lparr>parent_title := parent_title w\<rparr>"
      by simp
    then show ?thesis by blast
  qed
  from receive_world_after [of h ev w] app_loaded_effect [of h "''EDITOR_LOAD_TIME''" w] same
  show ?thesis by metis
qed

lemma dispatch_rel:
  assumes refl: "\<And>w. R w w"
    and trans: "\<And>a b c. R a b \<Longrightarrow> R b c \<Longrightarrow> R a c"
    and handler: "\<And>w. R w (world_after (receiveEventFromOfficeOnline h ev w))"
  shows "R w (world_after (dispatch h ev ls w))"
proof (induction ls arbitrary: w)
  case Nil
  show ?case by (simp add: refl)
next
  case (Cons l ls)
  obtain ty fn where l: "l = (ty, fn)" by (cases l)
  have fn: "fn = ReceiveEventFromOfficeOnline" by (cases fn)
  show ?case
  proof (cases "ty = ''message''")
    case False
    then show ?thesis using Cons.IH [of w] by (simp add: l)
  next
    case True
    show ?thesis
    proof (cases "receiveEventFromOfficeOnline h ev w")
      case (Inl x)
      then have "world_after (dispatch h ev (l # ls) w)
          = world_after (receiveEventFromOfficeOnline h ev w)"
        by (simp add: l fn True)
      then show ?thesis using handler [of w] by simp
    next
      case (Inr w1)
      then have "world_after (dispatch h ev (l # ls) w) = world_after (dispatch h ev ls w1)"
        by (simp add: l fn True)
      moreover have "R w w1" using handler [of w] Inr by simp
      ultimately show ?thesis using Cons.IH [of w1] trans by metis
    qed
  qed
qed

lemma run_rel:
  assumes refl: "\<And>w. R w w"
    and trans: "\<And>a b c. R a b \<Longrightarrow> R b c \<Longrightarrow> R a c"
    and step: "\<And>c w. c \<in> set cs \<Longrightarrow> R w (world_after (step h c w))"
  shows "R w (run h cs w)"
  using step
proof (induction cs arbitrary: w)
  case Nil
  show ?case by (simp add: refl)
next
  case (Cons c cs)
  have "R w (world_after (step h c w))" using Cons.prems by simp
  moreover have "R (world_after (step h c w)) (run h cs (world_after (step h c w)))"
    using Cons.IH Cons.prems by simp
  ultimately show ?case using trans by (metis run.simps(2))
qed

lemma init_effect:
  "world_after (init h w) =
     w\<lparr>startTs := Some (performance_now h (perf_calls w)), perf_calls := Suc (perf_calls w)\<rparr>
   \<or> (\<exists>fh frm ls.
         world_after (init h w) =
           w\<lparr>startTs := Some (performance_now h (perf_calls w)),
              perf_calls := Suc (Suc (perf_calls w)),
              frame_holder := fh,
              office_form := frm,
              listeners := ls,
              sent_logs := sent_logs w @
                load_records h ''IFRAME_LOAD_TIME''
                  (double_minus (performance_now h (Suc (perf_calls w))) (performance_now h (perf_calls w)))\<rparr>)"
proof -
  let ?w0 = "w\<lparr>startTs := Some (performance_now h (perf_calls w)), perf_calls := Suc (perf_calls w)\<rparr>"
  have s0: "startTs ?w0 = Some (performance_now h (perf_calls w))" by simp
  show ?thesis
  proof (cases "getOfficeEditorFrameElement h")
    case (Inl e)
    then show ?thesis by (simp add: init_def drawIframe_def Let_def)
  next
    case (Inr f)
    show ?thesis
    proof (cases "frame_holder w")
      case None
      with Inr show ?thesis by (simp add: init_def drawIframe_def Let_def)
    next
      case (Some ch)
      let ?w1 = "?w0\<lparr>frame_holder := Some (ch @ [f])\<rparr>"
      have s1: "startTs ?w1 = Some (performance_now h (perf_calls w))" by simp
      have d: "drawIframe h ?w0 =
          Inr (?w1\<lparr>perf_calls := Suc (perf_calls ?w1),
                 sent_logs := sent_logs ?w1 @
                   load_records h IFRAME_LOAD_TIME_EVENT
                     (double_minus (performance_now h (perf_calls ?w1)) (performance_now h (perf_calls w)))\<rparr>)"
        using Inr Some logLoadTime_Some [OF s1, of h IFRAME_LOAD_TIME_EVENT]
        by (simp add: drawIframe_def Let_def)
      have "\<exists>frm ls. world_after (init h w) =
           w\<lparr>startTs := Some (performance_now h (perf_calls w)),
              perf_calls := Suc (Suc (perf_calls w)),
              frame_holder := Some (ch @ [f]),
              office_form := frm,
              listeners := ls,
              sent_logs := sent_logs w @
                load_records h ''IFRAME_LOAD_TIME''
                  (double_minus (performance_now h (Suc (perf_calls w))) (performance_now h (perf_calls w)))\<rparr>"
      proof (cases "office_form w")
        case None
        have "world_after (init h w) =
           w\<lparr>startTs := Some (performance_now h (perf_calls w)),
              perf_calls := Suc (Suc (perf_calls w)),
              frame_holder := Some (ch @ [f]),
              office_form := office_form w,
              listeners := listeners w,
              sent_logs := sent_logs w @
                load_records h ''IFRAME_LOAD_TIME''
                  (double_minus (performance_now h (Suc (perf_calls w))) (performance_now h (perf_calls w)))\<rparr>"
          unfolding init_def Let_def d
          by (simp add: postTokenToIframe_def None IFRAME_LOAD_TIME_EVENT_def)
        then show ?thesis by blast
      next
        case (Some n)
        have "world_after (init h w) =
           w\<lparr>startTs := Some (performance_now h (perf_calls w)),
              perf_calls := Suc (Suc (perf_calls w)),
              frame_holder := Some (ch @ [f]),
              office_form := Some (Suc n),
              listeners := listeners w @ [(''message'', ReceiveEventFromOfficeOnline)],
              sent_logs := sent_logs w @
                load_records h ''IFRAME_LOAD_TIME''
                  (double_minus (performance_now h (Suc (perf_calls w))) (performance_now h (perf_calls w)))\<rparr>"
          unfolding init_def Let_def d
          by (simp add: postTokenToIframe_def subscribeToEventsFromOfficeOnline_def dom_on_def
              Some IFRAME_LOAD_TIME_EVENT_def)
        then show ?thesis by blast
      qed
      then show ?thesis by blast
    qed
  qed
qed

lemma destroy_effect:
  "world_after (destroy w) = w
   \<or> world_after (destroy w)
       = w\<lparr>listeners := filter (\<lambda>l. l \<noteq> (''message'', ReceiveEventFromOfficeOnline)) (listeners w)\<rparr>"
  by (cases "startTs w") (simp_all add: destroy_def dom_off_def)

lemma app_loaded_example:
  "receiveEventFromOfficeOnline example_host app_loaded_event example_started = Inr example_loaded"
proof -
  have p: "JSON_parse example_host ''{\"MessageId\":\"App_LoadingStatus\"}''
       = Some (JObj [(''MessageId'', JStr ''App_LoadingStatus'')])"
    by (simp add: example_host_simps example_parse_def)
  have l: "logLoadTime example_host EDITOR_LOAD_TIME_EVENT example_started
      = Inr (example_started
               \<lparr>perf_calls := 3,
                sent_logs := sent_logs example_started @
                  load_records example_host ''EDITOR_LOAD_TIME'' 12000\<rparr>)"
    using logLoadTime_Some [of example_started 0 example_host EDITOR_LOAD_TIME_EVENT]
    by (simp add: example_started_simps example_host_simps double_minus_examples
        EDITOR_LOAD_TIME_EVENT_def)
  have r: "publishReadyMessage example_host
          (example_started
               \<lparr>perf_calls := 3,
                sent_logs := sent_logs example_started @
                  load_records example_host ''EDITOR_LOAD_TIME'' 12000\<rparr>)
      = Inr example_loaded"
    by (simp add: publishReadyMessage_eq query_editor_frame_def example_started_simps
        example_host_simps example_stringify_def load_records_def example_loaded_def
        EDITOR_IFRAME_CLASS_def)
       (simp add: example_started_def)
  show ?thesis
    by (simp add: receiveEventFromOfficeOnline_def app_loaded_event_def p l r
        APP_LOADING_STATUS_MESSAGE_ID_def FILE_RENAME_MESSAGE_ID_def)
qed

lemma run_example:
  "run example_host [CallInit, Message app_loaded_event] example_world = example_loaded"
  by (simp add: init_example deliver_def example_started_simps app_loaded_example)

section \<open>The ready message\<close>

lemma posts_ready_refl: "posts_ready h w w"
  by (simp add: posts_ready_def)

lemma posts_ready_trans: "posts_ready h a b \<Longrightarrow> posts_ready h b c \<Longrightarrow> posts_ready h a c"
  by (auto simp: posts_ready_def)

lemma posts_ready_same: "posted w' = posted w \<Longrightarrow> posts_ready h w w'"
  by (simp add: posts_ready_def)

lemma receive_posts_ready: "posts_ready h w (world_after (receiveEventFromOfficeOnline h ev w))"
  using receive_effect [of h ev w] by (auto simp: posts_ready_def)

lemma deliver_posts_ready: "posts_ready h w (world_after (deliver h ev w))"
  unfolding deliver_def
  by (rule dispatch_rel [where R = "posts_ready h"])
     (auto intro: posts_ready_refl posts_ready_trans receive_posts_ready)

lemma init_posts_ready: "posts_ready h w (world_after (init h w))"
  using init_effect [of h w] by (auto intro!: posts_ready_same)

lemma destroy_posts_ready: "posts_ready h w (world_after (destroy w))"
  using destroy_effect [of w] by (auto intro!: posts_ready_same)

lemma step_posts_ready: "posts_ready h w (world_after (step h c w))"
  by (cases c) (simp_all add: init_posts_ready destroy_posts_ready deliver_posts_ready)

lemma run_posts_ready: "posts_ready h w (run h cs w)"
  by (rule run_rel [where R = "posts_ready h"])
     (auto intro: posts_ready_refl posts_ready_trans step_posts_ready)

text \<open>
  C5. Where \<^verbatim>\<open>publishReadyMessage\<close> posts, it posts to the configured origin the
  serialisation of an object whose \<^verbatim>\<open>MessageId\<close> is \<^verbatim>\<open>Host_PostmessageReady\<close>, whose
  \<^verbatim>\<open>Values\<close> is the empty object and whose \<^verbatim>\<open>SendTime\<close> is the reading of
  \<^verbatim>\<open>(new Date()).getTime()\<close> made by the call; it posts when the module is initialised and
  the editor frame is in the document, and never posts anything else. Whatever sequence of
  \<^verbatim>\<open>init\<close>, \<^verbatim>\<open>destroy\<close> and message events the page goes through, every message posted to
  the frame is such a ready message.
\<close>

theorem ready_message_only:
  "(\<forall>start officeFrame. startTs w = Some start \<and> query_editor_frame w = Some officeFrame \<longrightarrow>
      publishReadyMessage h w =
        Inr (w\<lparr>date_calls := Suc (date_calls w),
               posted := posted w @
                 [(JSON_stringify h
                     (JObj [(''MessageId'', JStr ''Host_PostmessageReady''),
                            (''SendTime'', JNum (of_int (Date_getTime h (date_calls w)))),
                            (''Values'', JObj [])]),
                   origin h)]\<rparr>))
   \<and> (\<exists>ps. posted (world_after (publishReadyMessage h w)) = posted w @ ps
          \<and> list_all (ready_post h) ps \<and> length ps \<le> 1)
   \<and> (\<exists>ps. posted (run h cs w) = posted w @ ps \<and> list_all (ready_post h) ps)"
proof (intro conjI)
  show "\<forall>start officeFrame. startTs w = Some start \<and> query_editor_frame w = Some officeFrame \<longrightarrow>
      publishReadyMessage h w =
        Inr (w\<lparr>date_calls := Suc (date_calls w),
               posted := posted w @
                 [(JSON_stringify h
                     (JObj [(''MessageId'', JStr ''Host_PostmessageReady''),
                            (''SendTime'', JNum (of_int (Date_getTime h (date_calls w)))),
                            (''Values'', JObj [])]),
                   origin h)]\<rparr>)"
    by (simp add: publishReadyMessage_eq)
next
  have "ready_post h (JSON_stringify h
                     (JObj [(''MessageId'', JStr ''Host_PostmessageReady''),
                            (''SendTime'', JNum (of_int (Date_getTime h (date_calls w)))),
                            (''Values'', JObj [])]),
                   origin h)"
    unfolding ready_post_def by blast
  then show "\<exists>ps. posted (world_after (publishReadyMessage h w)) = posted w @ ps
          \<and> list_all (ready_post h) ps \<and> length ps \<le> 1"
    by (simp add: publishReadyMessage_eq)
next
  show "\<exists>ps. posted (run h cs w) = posted w @ ps \<and> list_all (ready_post h) ps"
    using run_posts_ready [of h w cs] by (simp add: posts_ready_def)
qed

theorem ready_message_only_witness:
  "startTs example_started = Some 0
   \<and> query_editor_frame example_started = Some example_frame
   \<and> publishReadyMessage example_host example_started =
       Inr (example_started
              \<lparr>date_calls := 1,
               posted :=
                 [(''{\"MessageId\":\"Host_PostmessageReady\",\"SendTime\":1700000000000,\"Values\":{}}'',
                   ''https://excel.officeapps.live.com'')]\<rparr>)"
proof -
  have s: "startTs example_started = Some 0" by (simp add: example_started_simps)
  have q: "query_editor_frame example_started = Some example_frame" by (rule query_example_started)
  from ready_message_only [of example_started example_host "[]"] s q
  have "publishReadyMessage example_host example_started =
        Inr (example_started\<lparr>date_calls := Suc (date_calls example_started),
               posted := posted example_started @
                 [(JSON_stringify example_host
                     (JObj [(''MessageId'', JStr ''Host_PostmessageReady''),
                            (''SendTime'', JNum (of_int (Date_getTime example_host (date_calls example_started)))),
                            (''Values'', JObj [])]),
                   origin example_host)]\<rparr>)"
    by blast
  then show ?thesis using s q
    by (simp add: example_host_simps example_started_simps example_stringify_def)
qed

section \<open>Teardown\<close>

lemma dispatch_no_message_listener:
  "\<forall>l \<in> set ls. fst l \<noteq> ''message'' \<Longrightarrow> dispatch h ev ls w = Inr w"
  by (induction ls) auto

lemma run_messages_unsubscribed:
  "\<forall>l \<in> set (listeners w). fst l \<noteq> ''message'' \<Longrightarrow> run h (map Message evs) w = w"
  by (induction evs) (simp_all add: deliver_def dispatch_no_message_listener)

text \<open>
  C9. On an initialised module \<^verbatim>\<open>destroy\<close> returns, and afterwards no handler is
  subscribed for \<^verbatim>\<open>message\<close>: every message event delivered then, and every sequence of
  them, leaves the state as it is (no telemetry, no posted message, no title change).
\<close>

theorem destroy_unsubscribes:
  assumes "startTs w = Some start"
  shows "\<exists>w'. destroy w = Inr w'
           \<and> (\<forall>l \<in> set (listeners w'). fst l \<noteq> ''message'')
           \<and> (\<forall>ev. deliver h ev w' = Inr w')
           \<and> (\<forall>evs. run h (map Message evs) w' = w')"
proof -
  let ?w' = "dom_off ''message'' ReceiveEventFromOfficeOnline w"
  have d: "destroy w = Inr ?w'" using assms by (simp add: destroy_def)
  have l: "\<forall>l \<in> set (listeners ?w'). fst l \<noteq> ''message''"
  proof
    fix l assume "l \<in> set (listeners ?w')"
    then have ne: "l \<noteq> (''message'', ReceiveEventFromOfficeOnline)"
      by (simp add: dom_off_def)
    obtain ty fn where p: "l = (ty, fn)" by (cases l)
    have "fn = ReceiveEventFromOfficeOnline" by (cases fn)
    with ne p show "fst l \<noteq> ''message''" by simp
  qed
  have "\<forall>ev. deliver h ev ?w' = Inr ?w'"
    using l by (simp add: deliver_def dispatch_no_message_listener)
  moreover have "\<forall>evs. run h (map Message evs) ?w' = ?w'"
    using l by (simp add: run_messages_unsubscribed)
  ultimately show ?thesis using d l by blast
qed

theorem destroy_unsubscribes_witness:
  "startTs example_started = Some 0
   \<and> destroy example_started = Inr (example_started\<lparr>listeners := []\<rparr>)
   \<and> deliver example_host app_loaded_event (example_started\<lparr>listeners := []\<rparr>)
       = Inr (example_started\<lparr>listeners := []\<rparr>)
   \<and> run example_host [Message app_loaded_event, Message file_rename_event]
        (example_started\<lparr>listeners := []\<rparr>)
       = example_started\<lparr>listeners := []\<rparr>"
proof -
  have s: "startTs example_started = Some 0" by (simp add: example_started_simps)
  have d: "destroy example_started = Inr (example_started\<lparr>listeners := []\<rparr>)"
    by (simp add: destroy_def dom_off_def example_started_simps)
  from destroy_unsubscribes [OF s, of example_host] d
  have "(\<forall>ev. deliver example_host ev (example_started\<lparr>listeners := []\<rparr>)
            = Inr (example_started\<lparr>listeners := []\<rparr>))
        \<and> (\<forall>evs. run example_host (map Message evs) (example_started\<lparr>listeners := []\<rparr>)
            = example_started\<lparr>listeners := []\<rparr>)"
    by auto
  then have "deliver example_host app_loaded_event (example_started\<lparr>listeners := []\<rparr>)
            = Inr (example_started\<lparr>listeners := []\<rparr>)"
    and "run example_host (map Message [app_loaded_event, file_rename_event]) (example_started\<lparr>listeners := []\<rparr>)
            = example_started\<lparr>listeners := []\<rparr>"
    by blast+
  with s d show ?thesis by simp
qed

section \<open>Load times within a session\<close>

lemma editor_record_not_iframe:
  "e \<in> set (load_records h ''EDITOR_LOAD_TIME'' x) \<Longrightarrow> \<not> iframe_event e"
  by (auto simp: iframe_event_def dest!: load_records_entry)

lemma receive_timing_invariant:
  assumes "timing_invariant h r0 w"
  shows "timing_invariant h r0 (world_after (receiveEventFromOfficeOnline h ev w))"
proof -
  from receive_effect [of h ev w] show ?thesis
  proof
    assume "\<exists>t. world_after (receiveEventFromOfficeOnline h ev w) = w\<lparr>parent_title := t\<rparr>"
    then show ?thesis using assms by (auto simp: timing_invariant_def)
  next
    assume "\<exists>start ps. startTs w = Some start \<and> list_all (ready_post h) ps
         \<and> world_after (receiveEventFromOfficeOnline h ev w)
             = w\<lparr>perf_calls := Suc (perf_calls w),
                 date_calls := Suc (date_calls w),
                 sent_logs := sent_logs w @
                   load_records h ''EDITOR_LOAD_TIME'' (double_minus (performance_now h (perf_calls w)) start),
                 posted := posted w @ ps\<rparr>"
    then obtain start ps where st: "startTs w = Some start"
      and eq: "world_after (receiveEventFromOfficeOnline h ev w)
             = w\<lparr>perf_calls := Suc (perf_calls w),
                 date_calls := Suc (date_calls w),
                 sent_logs := sent_logs w @
                   load_records h ''EDITOR_LOAD_TIME'' (double_minus (performance_now h (perf_calls w)) start),
                 posted := posted w @ ps\<rparr>"
      by blast
    from assms st have start: "start = performance_now h r0" and lt: "r0 < perf_calls w"
      by (simp_all add: timing_invariant_def)
    have old: "\<exists>k. r0 < k \<and> k < Suc (perf_calls w)
              \<and> load_time (sent_params e) = double_minus (performance_now h k) (performance_now h r0)
              \<and> (iframe_event e \<longrightarrow> k = Suc r0)"
      if "e \<in> set (sent_logs w)" for e
    proof -
      from assms that obtain k where "r0 < k" "k < perf_calls w"
          "load_time (sent_params e) = double_minus (performance_now h k) (performance_now h r0)"
          "iframe_event e \<longrightarrow> k = Suc r0"
        unfolding timing_invariant_def by blast
      then show ?thesis by (intro exI [of _ k]) simp
    qed
    have new: "\<exists>k. r0 < k \<and> k < Suc (perf_calls w)
              \<and> load_time (sent_params e) = double_minus (performance_now h k) (performance_now h r0)
              \<and> (iframe_event e \<longrightarrow> k = Suc r0)"
      if "e \<in> set (load_records h ''EDITOR_LOAD_TIME'' (double_minus (performance_now h (perf_calls w)) start))" for e
    proof -
      from that have "load_time (sent_params e) = double_minus (performance_now h (perf_calls w)) start"
        by (simp add: load_records_entry)
      moreover from that have "\<not> iframe_event e" by (rule editor_record_not_iframe)
      ultimately show ?thesis using lt start by (intro exI [of _ "perf_calls w"]) simp
    qed
    show ?thesis
      unfolding eq timing_invariant_def using assms old new lt
      by (auto simp: timing_invariant_def)
  qed
qed

lemma deliver_timing_invariant:
  "timing_invariant h r0 w \<Longrightarrow> timing_invariant h r0 (world_after (deliver h ev w))"
  unfolding deliver_def
  using dispatch_rel [where R = "\<lambda>a b. timing_invariant h r0 a \<longrightarrow> timing_invariant h r0 b"
      and h = h and ev = ev and ls = "listeners w" and w = w]
  by (simp add: receive_timing_invariant)

lemma destroy_timing_invariant:
  "timing_invariant h r0 w \<Longrightarrow> timing_invariant h r0 (world_after (destroy w))"
  using destroy_effect [of w] by (auto simp: timing_invariant_def)

lemma init_timing_invariant:
  assumes "sent_logs w = []"
  shows "timing_invariant h (perf_calls w) (world_after (init h w))"
proof -
  from init_effect [of h w] show ?thesis
  proof
    assume "world_after (init h w) =
      w\<lparr>startTs := Some (performance_now h (perf_calls w)), perf_calls := Suc (perf_calls w)\<rparr>"
    then show ?thesis using assms by (simp add: timing_invariant_def)
  next
    assume "\<exists>fh frm ls.
         world_after (init h w) =
           w\<lparr>startTs := Some (performance_now h (perf_calls w)),
              perf_calls := Suc (Suc (perf_calls w)),
              frame_holder := fh,
              office_form := frm,
              listeners := ls,
              sent_logs := sent_logs w @
                load_records h ''IFRAME_LOAD_TIME''
                  (double_minus (performance_now h (Suc (perf_calls w))) (performance_now h (perf_calls w)))\<rparr>"
    then obtain fh frm ls where eq: "world_after (init h w) =
           w\<lparr>startTs := Some (performance_now h (perf_calls w)),
              perf_calls := Suc (Suc (perf_calls w)),
              frame_holder := fh,
              office_form := frm,
              listeners := ls,
              sent_logs := sent_logs w @
                load_records h ''IFRAME_LOAD_TIME''
                  (double_minus (performance_now h (Suc (perf_calls w))) (performance_now h (perf_calls w)))\<rparr>"
      by blast
    have "\<exists>k. perf_calls w < k \<and> k < Suc (Suc (perf_calls w))
              \<and> load_time (sent_params e) = double_minus (performance_now h k) (performance_now h (perf_calls w))
              \<and> (iframe_event e \<longrightarrow> k = Suc (perf_calls w))"
      if "e \<in> set (load_records h ''IFRAME_LOAD_TIME''
                  (double_minus (performance_now h (Suc (perf_calls w))) (performance_now h (perf_calls w))))" for e
      using load_records_entry [OF that] by (intro exI [of _ "Suc (perf_calls w)"]) simp
    then show ?thesis
      unfolding eq timing_invariant_def using assms by simp
  qed
qed

lemma step_timing_invariant:
  "c \<noteq> CallInit \<Longrightarrow> timing_invariant h r0 w \<Longrightarrow> timing_invariant h r0 (world_after (step h c w))"
  by (cases c) (simp_all add: destroy_timing_invariant deliver_timing_invariant)

lemma run_timing_invariant:
  assumes "CallInit \<notin> set cs" and "timing_invariant h r0 w"
  shows "timing_invariant h r0 (run h cs w)"
  using run_rel [where R = "\<lambda>a b. timing_invariant h r0 a \<longrightarrow> timing_invariant h r0 b"
      and h = h and cs = cs and w = w] assms step_timing_invariant
  by (metis (mono_tags, lifting))

text \<open>
  C8. In a session, that is \<^verbatim>\<open>init\<close> followed by message events and \<^verbatim>\<open>destroy\<close> calls in
  any order, on a page where nothing was logged before and whose clock is monotonic: the
  start timestamp is the clock reading \<^verbatim>\<open>init\<close> makes first and it stays that; every
  record logged carries the double difference of a later reading and that start timestamp, for
  \<^verbatim>\<open>IFRAME_LOAD_TIME\<close> the reading right after it; and so the load time of every
  \<^verbatim>\<open>EDITOR_LOAD_TIME\<close> record is at least that of every \<^verbatim>\<open>IFRAME_LOAD_TIME\<close> record (slow
  variants included).
\<close>

theorem editor_load_not_before_iframe_load:
  assumes "mono (performance_now h)" and "sent_logs w = []" and "CallInit \<notin> set cs"
  shows "startTs (run h (CallInit # cs) w) = Some (performance_now h (perf_calls w))
     \<and> (\<forall>e \<in> set (sent_logs (run h (CallInit # cs) w)).
           \<exists>k. perf_calls w < k
             \<and> load_time (sent_params e) = double_minus (performance_now h k) (performance_now h (perf_calls w))
             \<and> (iframe_event e \<longrightarrow> k = Suc (perf_calls w)))
     \<and> (\<forall>a \<in> set (sent_logs (run h (CallInit # cs) w)).
         \<forall>b \<in> set (sent_logs (run h (CallInit # cs) w)).
           iframe_event a \<and> editor_event b \<longrightarrow>
             load_time (sent_params a) \<le> load_time (sent_params b))"
proof -
  let ?w = "run h (CallInit # cs) w"
  let ?r0 = "perf_calls w"
  have "timing_invariant h ?r0 (world_after (init h w))"
    using assms(2) by (rule init_timing_invariant)
  then have inv: "timing_invariant h ?r0 ?w"
    using run_timing_invariant [OF assms(3)] by simp
  have entry: "\<exists>k. ?r0 < k
             \<and> load_time (sent_params e) = double_minus (performance_now h k) (performance_now h ?r0)
             \<and> (iframe_event e \<longrightarrow> k = Suc ?r0)"
    if "e \<in> set (sent_logs ?w)" for e
    using inv that unfolding timing_invariant_def by blast
  have order: "load_time (sent_params a) \<le> load_time (sent_params b)"
    if a: "a \<in> set (sent_logs ?w)" and b: "b \<in> set (sent_logs ?w)" and i: "iframe_event a" for a b
  proof -
    from entry [OF a] i
    have la: "load_time (sent_params a) = double_minus (performance_now h (Suc ?r0)) (performance_now h ?r0)"
      by auto
    from entry [OF b] obtain k where k: "?r0 < k"
      and lb: "load_time (sent_params b) = double_minus (performance_now h k) (performance_now h ?r0)"
      by blast
    from k have "Suc ?r0 \<le> k" by simp
    with assms(1) have "performance_now h (Suc ?r0) \<le> performance_now h k"
      by (rule monoD)
    then have "double_minus (performance_now h (Suc ?r0)) (performance_now h ?r0)
        \<le> double_minus (performance_now h k) (performance_now h ?r0)"
      by (rule double_minus_mono)
    with la lb show ?thesis by simp
  qed
  from inv have "startTs ?w = Some (performance_now h ?r0)"
    by (simp add: timing_invariant_def)
  with entry order show ?thesis by blast
qed

theorem editor_load_not_before_iframe_load_witness:
  "mono (performance_now example_host)
   \<and> sent_logs example_world = []
   \<and> CallInit \<notin> set [Message app_loaded_event]
   \<and> startTs (run example_host [CallInit, Message app_loaded_event] example_world) = Some 0
   \<and> map (\<lambda>e. (event_name (sent_params e), load_time (sent_params e)))
         (sent_logs (run example_host [CallInit, Message app_loaded_event] example_world))
       = [(''IFRAME_LOAD_TIME'', 6000), (''EDITOR_LOAD_TIME'', 12000),
          (''EDITOR_LOAD_TIME_slow'', 12000)]
   \<and> load_time (sent_params
         (hd (sent_logs (run example_host [CallInit, Message app_loaded_event] example_world))))
       \<le> load_time (sent_params
           (last (sent_logs (run example_host [CallInit, Message app_loaded_event] example_world))))"
proof -
  let ?w = "run example_host [CallInit, Message app_loaded_event] example_world"
  have m: "mono (performance_now example_host)"
    by (rule monoI) (simp add: example_host_simps)
  have e: "sent_logs example_world = []" by (simp add: example_world_def)
  have c: "CallInit \<notin> set [Message app_loaded_event]" by simp
  have logs: "map (\<lambda>e. (event_name (sent_params e), load_time (sent_params e))) (sent_logs ?w)
       = [(''IFRAME_LOAD_TIME'', 6000), (''EDITOR_LOAD_TIME'', 12000),
          (''EDITOR_LOAD_TIME_slow'', 12000)]"
    by (simp only: run_example) (simp add: example_loaded_def)
  have a: "hd (sent_logs ?w) \<in> set (sent_logs ?w)" "iframe_event (hd (sent_logs ?w))"
    by (simp_all only: run_example) (simp_all add: example_loaded_def iframe_event_def)
  have b: "last (sent_logs ?w) \<in> set (sent_logs ?w)" "editor_event (last (sent_logs ?w))"
    by (simp_all only: run_example) (simp_all add: example_loaded_def editor_event_def)
  from editor_load_not_before_iframe_load [OF m e c] a b
  have "load_time (sent_params (hd (sent_logs ?w))) \<le> load_time (sent_params (last (sent_logs ?w)))"
    by blast
  moreover from editor_load_not_before_iframe_load [OF m e c]
  have "startTs ?w = Some 0"
    by (simp add: example_host_simps example_world_def)
  ultimately show ?thesis using m e c logs by simp
qed

end
